theory Spec2Isabelle
  imports Complex_Main "HOL-Library.Word"
begin

section \<open>Data model of \<open>transcribe.py\<close>\<close>

text \<open>
  The script is a single function \<open>transcribe_audio\<close> plus a module-level prompt loop.
  Everything it touches beyond its own variables is an external capability: the file system
  (\<open>os.path.exists\<close>, \<open>open\<close>), the \<open>wave\<close> reader, the Vosk model and recognizer, the
  \<open>rich\<close> progress task and the console. Those capabilities are the fields of the record
  \<open>env\<close>; the script's own control flow is embedded over them, every \<open>exit(1)\<close> and every
  exception being a branch of the model. What the script does to the outside world is
  recorded, in order, as a list of events.

  Python \<open>str\<close> values are held as their UTF-8 encoding (a \<open>string\<close>), which is what the two
  output files contain. Lengths, counters and the unsigned header fields of the waveform
  container are natural numbers.
\<close>

type_synonym path = string
type_synonym byte = "8 word"

text \<open>Exceptions: \<open>EOFError\<close> of \<open>input()\<close>, \<open>TypeError\<close> of \<open>+\<close> on a non-string, and any
  other \<open>Exception\<close> of a library call, with its message.\<close>

datatype exn = EOFError | TypeError | Error string

text \<open>The value \<open>json.loads\<close> returns. A hypothesis record is a \<open>dict\<close>: an association list
  with lookup \<open>map_of\<close> (keys of a parsed object are distinct).\<close>

datatype json =
    JNull
  | JBool bool
  | JNum int
  | JStr string
  | JArr "json list"
  | JObj "(string \<times> json) list"

type_synonym hrecord = "(string \<times> json) list"

text \<open>An opened \<open>wave.Wave_read\<close>: the header fields and the bytes of the data chunk not yet
  read.\<close>

record wave_read =
  nchannels :: nat
  sampwidth :: nat
  framerate :: nat
  nframes :: nat
  unread :: "byte list"

text \<open>What an output path holds: the array written by \<open>json.dump\<close>, the text written by
  \<open>f.write\<close>, or the remains of a dump that raised after the file was truncated.\<close>

datatype fcontent = JsonDoc "hrecord list" | TextDoc string | Broken

type_synonym fs = "path \<Rightarrow> fcontent option"

text \<open>The messages of \<open>print_step\<close>, one constructor per call site (colour and emoji left
  out).\<close>

datatype step_msg =
    CheckingModel
  | ModelNotFound path
  | LoadingModel
  | ModelLoaded
  | CheckingAudio
  | AudioNotFound path
  | OpeningAudio
  | ErrorOpeningAudio exn
  | AudioOpened
  | ValidatingSpecs
  | BadAudioSpecs
  | SpecsValidated
  | InitRecognizer
  | RecognizerReady
  | StartingConversion
  | ClosingAudio
  | AudioClosed
  | SavingResults
  | SavedTo path
  | ErrorSaving exn
  | TranscriptionResult

datatype prompt = AskAudioPath | PressEnter

datatype event =
    Step step_msg
  | EvModel path
  | EvWaveOpen path
  | EvRecognizer nat
  | EvRead nat "byte list"
  | EvAccept "byte list"
  | EvResult
  | EvAdvance nat
  | EvLive nat nat real real
  | EvFinalResult
  | EvWaveClose
  | EvOpenWrite path
  | EvDump path
  | EvWrite path string
  | EvPrint string
  | EvNotFoundMsg
  | EvInput prompt
  | EvExit nat

text \<open>The external capabilities. \<open>result\<close> and \<open>final_result\<close> stand for
  \<open>json.loads(recognizer.Result())\<close> and \<open>json.loads(recognizer.FinalResult())\<close>; the engine
  returns a JSON object. \<open>task_speed\<close> and \<open>task_time_remaining\<close> are the two optional
  properties of the \<open>rich\<close> task, as read in the given loop iteration. \<open>open_error\<close> is the
  exception of \<open>open(path, "w")\<close>, \<open>write_error\<close> the exception of writing to the opened
  file, if any.\<close>

record ('m, 'r) env =
  path_exists :: "path \<Rightarrow> bool"
  load_model :: "path \<Rightarrow> exn + 'm"
  wave_open :: "path \<Rightarrow> exn + wave_read"
  new_recognizer :: "'m \<Rightarrow> nat \<Rightarrow> exn + 'r"
  accept_waveform :: "'r \<Rightarrow> byte list \<Rightarrow> exn + (bool \<times> 'r)"
  result :: "'r \<Rightarrow> hrecord \<times> 'r"
  final_result :: "'r \<Rightarrow> hrecord \<times> 'r"
  task_speed :: "nat \<Rightarrow> real option"
  task_time_remaining :: "nat \<Rightarrow> real option"
  open_error :: "path \<Rightarrow> exn option"
  write_error :: "path \<Rightarrow> exn option"

section \<open>The waveform reader\<close>

text \<open>\<open>Wave_read.readframes(n)\<close>: at most \<open>n\<close> frames, that is \<open>n * framesize\<close> bytes, from the
  current position, with \<open>framesize = nchannels * sampwidth\<close> (little-endian host: no byte
  swap).\<close>

definition framesize :: "wave_read \<Rightarrow> nat" where
  "framesize w = nchannels w * sampwidth w"

definition readframes :: "wave_read \<Rightarrow> nat \<Rightarrow> byte list \<times> wave_read" where
  "readframes w n =
     (if n = 0 then ([], w)
      else (take (n * framesize w) (unread w),
            w\<lparr>unread := drop (n * framesize w) (unread w)\<rparr>))"

section \<open>The chunk-feeding loop (lines 84 to 111)\<close>

definition chunk_size :: nat where
  "chunk_size = 4000"

text \<open>Python's \<open>x or 0\<close> on an optional number: \<open>None\<close> and zero are falsy.\<close>

definition or_zero :: "real option \<Rightarrow> real" where
  "or_zero x = (case x of None \<Rightarrow> 0 | Some v \<Rightarrow> if v = 0 then 0 else v)"

record 'r feed_state =
  wf :: wave_read
  rcg :: "'r"
  results :: "hrecord list"
  frames_processed :: nat
  total_frames :: nat
  task_completed :: nat
  iter :: nat
  events :: "event list"

datatype 'r step_result =
    Break "'r feed_state"
  | Raise exn "'r feed_state"
  | Next "'r feed_state"

text \<open>One pass through the body of \<open>while True\<close>.\<close>

definition feed_step :: "('m, 'r) env \<Rightarrow> 'r feed_state \<Rightarrow> 'r step_result" where
  "feed_step env s =
     (case readframes (wf s) chunk_size of (data, wf') \<Rightarrow>
        let s1 = s\<lparr>wf := wf',
                   frames_processed := frames_processed s + length data,
                   events := events s @ [EvRead chunk_size data]\<rparr>
        in if length data = 0 then Break s1
           else (case accept_waveform env (rcg s1) data of
                   Inl e \<Rightarrow> Raise e (s1\<lparr>events := events s1 @ [EvAccept data]\<rparr>)
                 | Inr (b, r1) \<Rightarrow>
                     let s2 = (if b
                               then (case result env r1 of (res, r2) \<Rightarrow>
                                       s1\<lparr>rcg := r2,
                                          results := results s1 @ [res],
                                          events := events s1 @ [EvAccept data, EvResult]\<rparr>)
                               else s1\<lparr>rcg := r1, events := events s1 @ [EvAccept data]\<rparr>);
                         s3 = s2\<lparr>task_completed := task_completed s2 + length data,
                                 events := events s2 @ [EvAdvance (length data)]\<rparr>;
                         speed = or_zero (task_speed env (iter s3));
                         time_remaining = or_zero (task_time_remaining env (iter s3))
                     in Next (s3\<lparr>iter := Suc (iter s3),
                                  events := events s3 @
                                    [EvLive (frames_processed s3) (total_frames s3)
                                       speed time_remaining]\<rparr>)))"

function feed_loop :: "('m, 'r) env \<Rightarrow> 'r feed_state \<Rightarrow> exn option \<times> 'r feed_state" where
  "feed_loop env s =
     (case feed_step env s of
        Break s' \<Rightarrow> (None, s')
      | Raise e s' \<Rightarrow> (Some e, s')
      | Next s' \<Rightarrow> feed_loop env s')"
  by pat_completeness auto
termination
  by (relation "measure (\<lambda>(env, s). length (unread (wf s)))")
     (auto simp: feed_step_def readframes_def chunk_size_def Let_def
           split: prod.splits if_splits sum.splits)

section \<open>Saving and displaying the results (lines 122 to 143)\<close>

definition newline :: string where
  "newline = [CHR 0x0A]"

text \<open>The body of \<open>for result in results: if "text" in result: f.write(result["text"] + "\n")\<close>
  on the opened text file: the exception raised, if any, and what the file holds when it is
  closed. \<open>+\<close> raises \<open>TypeError\<close> when the value under \<open>text\<close> is not a string.\<close>

fun write_lines :: "exn option \<Rightarrow> hrecord list \<Rightarrow> string \<Rightarrow> exn option \<times> string" where
  "write_lines werr [] acc = (None, acc)"
| "write_lines werr (r # rs) acc =
     (case map_of r ''text'' of
        None \<Rightarrow> write_lines werr rs acc
      | Some (JStr t) \<Rightarrow>
          (case werr of
             Some e \<Rightarrow> (Some e, acc)
           | None \<Rightarrow> write_lines werr rs (acc @ t @ newline))
      | Some _ \<Rightarrow> (Some TypeError, acc))"

text \<open>The \<open>try\<close> block with its single \<open>except Exception\<close> handler: the events, and the file
  system afterwards.\<close>

definition save_results ::
  "('m, 'r) env \<Rightarrow> hrecord list \<Rightarrow> path \<Rightarrow> path \<Rightarrow> fs \<Rightarrow> event list \<times> fs" where
  "save_results env rs output_json output_txt fs0 =
     (case open_error env output_json of
        Some e \<Rightarrow> ([EvOpenWrite output_json, Step (ErrorSaving e)], fs0)
      | None \<Rightarrow>
          (case write_error env output_json of
             Some e \<Rightarrow>
               ([EvOpenWrite output_json, EvDump output_json, Step (ErrorSaving e)],
                fs0(output_json \<mapsto> Broken))
           | None \<Rightarrow>
               let fs1 = fs0(output_json \<mapsto> JsonDoc rs);
                   ev1 = [EvOpenWrite output_json, EvDump output_json,
                          Step (SavedTo output_json)]
               in (case open_error env output_txt of
                     Some e \<Rightarrow> (ev1 @ [EvOpenWrite output_txt, Step (ErrorSaving e)], fs1)
                   | None \<Rightarrow>
                       (case write_lines (write_error env output_txt) rs [] of
                          (Some e, content) \<Rightarrow>
                            (ev1 @ [EvOpenWrite output_txt, EvWrite output_txt content,
                                    Step (ErrorSaving e)],
                             fs1(output_txt \<mapsto> TextDoc content))
                        | (None, content) \<Rightarrow>
                            (ev1 @ [EvOpenWrite output_txt, EvWrite output_txt content,
                                    Step (SavedTo output_txt)],
                             fs1(output_txt \<mapsto> TextDoc content))))))"

text \<open>The final display loop, outside any \<open>try\<close>: \<open>Fore.LIGHTCYAN_EX + result["text"]\<close>
  raises \<open>TypeError\<close> on a non-string.\<close>

fun display_results :: "hrecord list \<Rightarrow> event list \<Rightarrow> exn option \<times> event list" where
  "display_results [] ev = (None, ev)"
| "display_results (r # rs) ev =
     (case map_of r ''text'' of
        None \<Rightarrow> display_results rs ev
      | Some (JStr t) \<Rightarrow> display_results rs (ev @ [EvPrint t])
      | Some _ \<Rightarrow> (Some TypeError, ev))"

section \<open>\<open>transcribe_audio\<close>\<close>

datatype status = Finished | Exited nat | Uncaught exn

text \<open>The exit status of the process: an uncaught exception ends the interpreter with
  status 1.\<close>

fun exit_code :: "status \<Rightarrow> nat" where
  "exit_code Finished = 0"
| "exit_code (Exited n) = n"
| "exit_code (Uncaught e) = 1"

text \<open>How \<open>transcribe_audio\<close> ends: the way the process goes on or stops, the events in order,
  the output files afterwards, and the value of the local list \<open>results\<close> at that moment.\<close>

record outcome =
  status :: status
  trace :: "event list"
  fsys :: fs
  records :: "hrecord list"

definition valid_format :: "wave_read \<Rightarrow> bool" where
  "valid_format w \<longleftrightarrow>
     \<not> (nchannels w \<noteq> 1 \<or> sampwidth w \<noteq> 2 \<or> framerate w \<notin> set [8000, 16000])"

text \<open>The variables when the loop is entered (lines 64 to 66, 84 and 86): nothing processed,
  no result yet, the progress task created with \<open>total = wf.getnframes()\<close>.\<close>

definition start_state :: "wave_read \<Rightarrow> 'r \<Rightarrow> event list \<Rightarrow> 'r feed_state" where
  "start_state w recognizer ev =
     \<lparr>wf = w, rcg = recognizer, results = [], frames_processed = 0,
      total_frames = nframes w, task_completed = 0, iter = 0, events = ev\<rparr>"

text \<open>Lines 113 to 143: the final result, closing the audio file, saving, displaying.\<close>

definition finish ::
  "('m, 'r) env \<Rightarrow> 'r feed_state \<Rightarrow> path \<Rightarrow> path \<Rightarrow> fs \<Rightarrow> outcome" where
  "finish env s output_json output_txt fs0 =
     (case final_result env (rcg s) of (fin, r') \<Rightarrow>
        let rs = results s @ [fin];
            ev1 = events s @ [EvFinalResult, Step ClosingAudio, EvWaveClose, Step AudioClosed,
                              Step SavingResults]
        in (case save_results env rs output_json output_txt fs0 of (ev2, fs1) \<Rightarrow>
              (case display_results rs (ev1 @ ev2 @ [Step TranscriptionResult]) of
                 (None, ev3) \<Rightarrow>
                   \<lparr>status = Finished, trace = ev3, fsys = fs1, records = rs\<rparr>
               | (Some e, ev3) \<Rightarrow>
                   \<lparr>status = Uncaught e, trace = ev3, fsys = fs1, records = rs\<rparr>)))"

definition transcribe_audio ::
  "('m, 'r) env \<Rightarrow> path \<Rightarrow> path \<Rightarrow> path \<Rightarrow> path \<Rightarrow> fs \<Rightarrow> outcome" where
  "transcribe_audio env model_path audio_file output_json output_txt fs0 =
     (if \<not> path_exists env model_path
      then \<lparr>status = Exited 1,
             trace = [Step CheckingModel, Step (ModelNotFound model_path), EvExit 1],
             fsys = fs0, records = []\<rparr>
      else
       (let ev1 = [Step CheckingModel, Step LoadingModel, EvModel model_path] in
        (case load_model env model_path of
           Inl e \<Rightarrow> \<lparr>status = Uncaught e, trace = ev1, fsys = fs0, records = []\<rparr>
         | Inr model \<Rightarrow>
            (let ev2 = ev1 @ [Step ModelLoaded, Step CheckingAudio] in
             (if \<not> path_exists env audio_file
              then \<lparr>status = Exited 1,
                     trace = ev2 @ [Step (AudioNotFound audio_file), EvExit 1],
                     fsys = fs0, records = []\<rparr>
              else
               (let ev3 = ev2 @ [Step OpeningAudio, EvWaveOpen audio_file] in
                (case wave_open env audio_file of
                   Inl e \<Rightarrow> \<lparr>status = Exited 1,
                              trace = ev3 @ [Step (ErrorOpeningAudio e), EvExit 1],
                              fsys = fs0, records = []\<rparr>
                 | Inr w \<Rightarrow>
                    (let ev4 = ev3 @ [Step AudioOpened, Step ValidatingSpecs] in
                     (if nchannels w \<noteq> 1 \<or> sampwidth w \<noteq> 2
                         \<or> framerate w \<notin> set [8000, 16000]
                      then \<lparr>status = Exited 1,
                             trace = ev4 @ [Step BadAudioSpecs, EvExit 1],
                             fsys = fs0, records = []\<rparr>
                      else
                       (let ev5 = ev4 @ [Step SpecsValidated, Step InitRecognizer,
                                         EvRecognizer (framerate w)] in
                        (case new_recognizer env model (framerate w) of
                           Inl e \<Rightarrow>
                             \<lparr>status = Uncaught e, trace = ev5, fsys = fs0, records = []\<rparr>
                         | Inr recognizer \<Rightarrow>
                            (let s0 = start_state w recognizer
                                        (ev5 @ [Step RecognizerReady, Step StartingConversion])
                             in (case feed_loop env s0 of
                                   (Some e, s) \<Rightarrow>
                                     \<lparr>status = Uncaught e, trace = events s, fsys = fs0,
                                      records = results s\<rparr>
                                 | (None, s) \<Rightarrow>
                                     finish env s output_json output_txt fs0)))))))))))))"

section \<open>The module level (lines 145 to 164)\<close>

definition model_path :: path where
  "model_path = ''E:'' @ [CHR 0x5C] @ ''1 python'' @ [CHR 0x5C] @ ''voice to text''
     @ [CHR 0x5C] @ ''vosk-model-fa-0.42'' @ [CHR 0x5C] @ ''vosk-model-fa-0.42''"

text \<open>\<open>str.strip()\<close> removes white space from both ends. The characters are those of the
  UTF-8 encoding, so the white space of the model is the ASCII one (the characters below 128
  for which \<open>str.isspace\<close> holds); a path with other Unicode white space at its ends is
  outside the model.\<close>

definition is_space :: "char \<Rightarrow> bool" where
  "is_space c \<longleftrightarrow> c \<in> set [CHR 0x09, CHR 0x0A, CHR 0x0B, CHR 0x0C, CHR 0x0D,
                            CHR 0x1C, CHR 0x1D, CHR 0x1E, CHR 0x1F, CHR 0x20]"

definition strip :: "string \<Rightarrow> string" where
  "strip s = rev (dropWhile is_space (rev (dropWhile is_space s)))"

text \<open>The prompt loop over the lines standard input supplies; \<open>input()\<close> at end of input
  raises \<open>EOFError\<close> (the \<open>None\<close> result). Returned: the accepted path, the lines left, the
  events.\<close>

fun prompt_loop ::
  "('m, 'r) env \<Rightarrow> string list \<Rightarrow> event list \<Rightarrow> path option \<times> string list \<times> event list"
where
  "prompt_loop env [] ev = (None, [], ev @ [EvInput AskAudioPath])"
| "prompt_loop env (l # ls) ev =
     (let audio_file = strip l in
      if path_exists env audio_file then (Some audio_file, ls, ev @ [EvInput AskAudioPath])
      else prompt_loop env ls (ev @ [EvInput AskAudioPath, EvNotFoundMsg]))"

text \<open>How the script ends: as \<open>outcome\<close>, with the lines of standard input left unread.\<close>

record run =
  run_status :: status
  run_trace :: "event list"
  run_fsys :: fs
  stdin_left :: "string list"

definition main :: "('m, 'r) env \<Rightarrow> string list \<Rightarrow> fs \<Rightarrow> run" where
  "main env stdin fs0 =
     (case prompt_loop env stdin [] of
        (None, rest, ev) \<Rightarrow>
          \<lparr>run_status = Uncaught EOFError, run_trace = ev, run_fsys = fs0, stdin_left = rest\<rparr>
      | (Some audio_file, rest, ev) \<Rightarrow>
          let out = transcribe_audio env model_path audio_file ''output.json'' ''output.txt'' fs0
          in (case status out of
                Finished \<Rightarrow>
                  (case rest of
                     [] \<Rightarrow> \<lparr>run_status = Uncaught EOFError,
                            run_trace = ev @ trace out @ [EvInput PressEnter],
                            run_fsys = fsys out, stdin_left = []\<rparr>
                   | l # rest' \<Rightarrow> \<lparr>run_status = Finished,
                                    run_trace = ev @ trace out @ [EvInput PressEnter],
                                    run_fsys = fsys out, stdin_left = rest'\<rparr>)
              | st \<Rightarrow> \<lparr>run_status = st, run_trace = ev @ trace out,
                        run_fsys = fsys out, stdin_left = rest\<rparr>))"

section \<open>Observations on a trace\<close>

text \<open>The byte strings returned by the successive \<open>readframes\<close> calls.\<close>

fun reads_of :: "event list \<Rightarrow> byte list list" where
  "reads_of [] = []"
| "reads_of (EvRead n d # es) = d # reads_of es"
| "reads_of (e # es) = reads_of es"

text \<open>The paths opened for writing, in order.\<close>

fun opened_for_write :: "event list \<Rightarrow> path list" where
  "opened_for_write [] = []"
| "opened_for_write (EvOpenWrite p # es) = p # opened_for_write es"
| "opened_for_write (e # es) = opened_for_write es"

text \<open>The write failures reported.\<close>

fun save_errors :: "event list \<Rightarrow> exn list" where
  "save_errors [] = []"
| "save_errors (Step (ErrorSaving e) # es) = e # save_errors es"
| "save_errors (e # es) = save_errors es"

text \<open>The rows assigned to the progress table, one per iteration: frames processed, total
  frames, speed, time remaining (as numbers, before they are formatted).\<close>

fun live_rows :: "event list \<Rightarrow> (nat \<times> nat \<times> real \<times> real) list" where
  "live_rows [] = []"
| "live_rows (EvLive a b c d # es) = (a, b, c, d) # live_rows es"
| "live_rows (e # es) = live_rows es"

text \<open>The advances given to the progress task.\<close>

fun advances :: "event list \<Rightarrow> nat list" where
  "advances [] = []"
| "advances (EvAdvance n # es) = n # advances es"
| "advances (e # es) = advances es"

section \<open>Reference functions\<close>

text \<open>Cutting a byte string into consecutive pieces of \<open>n\<close> bytes, the last one possibly
  shorter.\<close>

function chunks_of :: "nat \<Rightarrow> 'a list \<Rightarrow> 'a list list" where
  "chunks_of n xs = (if n = 0 \<or> xs = [] then [] else take n xs # chunks_of n (drop n xs))"
  by pat_completeness auto
termination
  by (relation "measure (\<lambda>(n, xs). length xs)") auto

text \<open>The \<open>text\<close> values of the records that have the field, in order, and the text file
  they make.\<close>

fun texts :: "hrecord list \<Rightarrow> json list" where
  "texts [] = []"
| "texts (r # rs) = (case map_of r ''text'' of None \<Rightarrow> texts rs | Some v \<Rightarrow> v # texts rs)"

fun text_lines :: "json list \<Rightarrow> string" where
  "text_lines [] = []"
| "text_lines (JStr t # vs) = t @ newline @ text_lines vs"
| "text_lines (v # vs) = text_lines vs"

definition text_is_str :: "hrecord \<Rightarrow> bool" where
  "text_is_str r = (case map_of r ''text'' of None \<Rightarrow> True | Some (JStr t) \<Rightarrow> True | Some _ \<Rightarrow> False)"

text \<open>The feeder in the words of its contract: each chunk in turn is passed to the
  recognizer; when the recognizer signals a boundary, its intermediate result is retrieved
  and appended; an error of the accept step ends the run. Returned: the intermediate
  results in order and the recognizer afterwards.\<close>

fun run_chunks ::
  "('m, 'r) env \<Rightarrow> 'r \<Rightarrow> byte list list \<Rightarrow> exn + (hrecord list \<times> 'r)" where
  "run_chunks env r [] = Inr ([], r)"
| "run_chunks env r (c # cs) =
     (case accept_waveform env r c of
        Inl e \<Rightarrow> Inl e
      | Inr (b, r1) \<Rightarrow>
          (if b
           then (case result env r1 of (res, r2) \<Rightarrow>
                   (case run_chunks env r2 cs of
                      Inl e \<Rightarrow> Inl e
                    | Inr (rs, r') \<Rightarrow> Inr (res # rs, r')))
           else run_chunks env r1 cs))"

section \<open>Auxiliary notions for the proofs\<close>

text \<open>The number of bytes one \<open>readframes(chunk_size)\<close> asks for.\<close>

definition chunk_bytes :: "'r feed_state \<Rightarrow> nat" where
  "chunk_bytes s = chunk_size * framesize (wf s)"

text \<open>A counter that starts at \<open>acc\<close> and is incremented by each element in turn: its value
  after every increment.\<close>

fun running_sums :: "nat \<Rightarrow> nat list \<Rightarrow> nat list" where
  "running_sums acc [] = []"
| "running_sums acc (x # xs) = (acc + x) # running_sums (acc + x) xs"

text \<open>The rows assigned from iteration \<open>i\<close> on carry the task total, and the speed and the
  remaining time of their iteration with \<open>or 0\<close> applied.\<close>

fun rows_ok ::
  "('m, 'r) env \<Rightarrow> nat \<Rightarrow> nat \<Rightarrow> (nat \<times> nat \<times> real \<times> real) list \<Rightarrow> bool" where
  "rows_ok env tot i [] = True"
| "rows_ok env tot i ((a, b, c, d) # rs) =
     (b = tot \<and> c = or_zero (task_speed env i) \<and> d = or_zero (task_time_remaining env i)
      \<and> rows_ok env tot (Suc i) rs)"

text \<open>The events of \<open>transcribe_audio\<close> up to the loop, when every check passes.\<close>

definition opening_events :: "path \<Rightarrow> path \<Rightarrow> wave_read \<Rightarrow> event list" where
  "opening_events mp af w =
     [Step CheckingModel, Step LoadingModel, EvModel mp, Step ModelLoaded, Step CheckingAudio,
      Step OpeningAudio, EvWaveOpen af, Step AudioOpened, Step ValidatingSpecs,
      Step SpecsValidated, Step InitRecognizer, EvRecognizer (framerate w),
      Step RecognizerReady, Step StartingConversion]"

text \<open>A trace without any read, progress, write, close, result or prompt event.\<close>

definition quiet :: "event list \<Rightarrow> bool" where
  "quiet ev \<longleftrightarrow>
     reads_of ev = [] \<and> advances ev = [] \<and> live_rows ev = [] \<and> opened_for_write ev = [] \<and>
     save_errors ev = [] \<and> count_list ev EvWaveClose = 0 \<and> count_list ev EvFinalResult = 0 \<and>
     count_list ev EvResult = 0 \<and> count_list ev (EvInput AskAudioPath) = 0 \<and>
     count_list ev (EvInput PressEnter) = 0 \<and> count_list ev EvNotFoundMsg = 0"

section \<open>Example inputs\<close>

text \<open>A mono 16-bit 16 kHz stream of \<open>n\<close> frames of silence, and a stereo 44.1 kHz one.\<close>

definition mono_wave :: "nat \<Rightarrow> wave_read" where
  "mono_wave n = \<lparr>nchannels = 1, sampwidth = 2, framerate = 16000, nframes = n,
                  unread = replicate (2 * n) 0\<rparr>"

definition stereo_wave :: wave_read where
  "stereo_wave = \<lparr>nchannels = 2, sampwidth = 2, framerate = 44100, nframes = 10,
                  unread = replicate 40 0\<rparr>"

text \<open>An environment in which every path but \<open>missing.wav\<close> exists, \<open>notes.txt\<close> is not a
  waveform file and any other path opens as \<open>w\<close>; the recognizer signals a boundary after
  every chunk; the progress task has no speed in the first iteration; every write works.\<close>

definition demo_env :: "wave_read \<Rightarrow> (unit, nat) env" where
  "demo_env w =
     \<lparr>path_exists = (\<lambda>p. p \<noteq> ''missing.wav''),
      load_model = (\<lambda>p. Inr ()),
      wave_open = (\<lambda>p. if p = ''notes.txt'' then Inl (Error ''file does not start with RIFF id'')
                         else Inr w),
      new_recognizer = (\<lambda>m rate. Inr 0),
      accept_waveform = (\<lambda>r d. Inr (True, Suc r)),
      result = (\<lambda>r. ([(''text'', JStr ''salam'')], r)),
      final_result = (\<lambda>r. ([(''text'', JStr [])], r)),
      task_speed = (\<lambda>i. if i = 0 then None else Some 16000),
      task_time_remaining = (\<lambda>i. if i = 0 then None else Some 1),
      open_error = (\<lambda>p. None),
      write_error = (\<lambda>p. None)\<rparr>"

text \<open>The same with \<open>output.json\<close>, respectively \<open>output.txt\<close>, not writable.\<close>

definition json_locked_env :: "(unit, nat) env" where
  "json_locked_env =
     (demo_env (mono_wave 0))
       \<lparr>open_error := (\<lambda>p. if p = ''output.json'' then Some (Error ''Permission denied'')
                             else None)\<rparr>"

definition text_locked_env :: "(unit, nat) env" where
  "text_locked_env =
     (demo_env (mono_wave 0))
       \<lparr>open_error := (\<lambda>p. if p = ''output.txt'' then Some (Error ''Permission denied'')
                             else None)\<rparr>"

text \<open>Three records: with a text, without the field, with the empty text.\<close>

definition demo_records :: "hrecord list" where
  "demo_records = [[(''text'', JStr ''salam'')], [(''partial'', JStr ''sa'')],
                   [(''text'', JStr [])]]"

text \<open>A one-frame stream and a recognizer whose \<open>AcceptWaveform\<close> raises.\<close>

definition raising_env :: "(unit, nat) env" where
  "raising_env =
     (demo_env (mono_wave 1))\<lparr>accept_waveform := (\<lambda>r d. Inl (Error ''decoder failure''))\<rparr>"

text \<open>A file cut short: the header announces 5000 frames, the data chunk holds 6000 bytes.\<close>

definition truncated_wave :: wave_read where
  "truncated_wave = \<lparr>nchannels = 1, sampwidth = 2, framerate = 16000, nframes = 5000,
                     unread = replicate 6000 0\<rparr>"

text \<open>A recognizer that signals a boundary after the first chunk only.\<close>

definition first_boundary_env :: "(unit, nat) env" where
  "first_boundary_env =
     (demo_env (mono_wave 5000))\<lparr>accept_waveform := (\<lambda>r d. Inr (r = 0, Suc r))\<rparr>"

section \<open>Properties of the embedding\<close>

subsection \<open>Observations of a concatenated trace\<close>

lemma reads_of_append: "reads_of (a @ b) = reads_of a @ reads_of b"
  by (induction a rule: reads_of.induct) simp_all

lemma advances_append: "advances (a @ b) = advances a @ advances b"
  by (induction a rule: advances.induct) simp_all

lemma live_rows_append: "live_rows (a @ b) = live_rows a @ live_rows b"
  by (induction a rule: live_rows.induct) simp_all

lemma opened_for_write_append:
  "opened_for_write (a @ b) = opened_for_write a @ opened_for_write b"
  by (induction a rule: opened_for_write.induct) simp_all

lemma save_errors_append: "save_errors (a @ b) = save_errors a @ save_errors b"
  by (induction a rule: save_errors.induct) simp_all

lemma count_list_append: "count_list (a @ b) x = count_list a x + count_list b x"
  by (induction a) simp_all

subsection \<open>One pass through the loop body\<close>

lemma feed_step_Break:
  assumes "feed_step env s = Break s'"
  shows "take (chunk_bytes s) (unread (wf s)) = []"
    and "events s' = events s @ [EvRead chunk_size []]"
    and "frames_processed s' = frames_processed s"
    and "task_completed s' = task_completed s"
    and "results s' = results s"
    and "rcg s' = rcg s"
    and "total_frames s' = total_frames s"
    and "iter s' = iter s"
    and "wf s' = wf s"
  using assms
  by (auto simp: feed_step_def readframes_def chunk_size_def chunk_bytes_def Let_def
           split: prod.splits if_splits sum.splits)

lemma feed_step_Raise:
  assumes "feed_step env s = Raise e s'"
  shows "take (chunk_bytes s) (unread (wf s)) \<noteq> []"
    and "events s' = events s @ [EvRead chunk_size (take (chunk_bytes s) (unread (wf s))),
                                   EvAccept (take (chunk_bytes s) (unread (wf s)))]"
    and "accept_waveform env (rcg s) (take (chunk_bytes s) (unread (wf s))) = Inl e"
    and "results s' = results s"
  using assms
  by (auto simp: feed_step_def readframes_def chunk_size_def chunk_bytes_def Let_def
           split: prod.splits if_splits sum.splits)

lemma feed_step_Next:
  assumes "feed_step env s = Next s'"
  shows "take (chunk_bytes s) (unread (wf s)) \<noteq> []"
    and "unread (wf s') = drop (chunk_bytes s) (unread (wf s))"
    and "chunk_bytes s' = chunk_bytes s"
    and "reads_of (events s') = reads_of (events s) @ [take (chunk_bytes s) (unread (wf s))]"
    and "advances (events s') =
           advances (events s) @ [length (take (chunk_bytes s) (unread (wf s)))]"
    and "live_rows (events s') = live_rows (events s) @
           [(frames_processed s', total_frames s, or_zero (task_speed env (iter s)),
             or_zero (task_time_remaining env (iter s)))]"
    and "count_list (events s') EvWaveClose = count_list (events s) EvWaveClose"
    and "count_list (events s') EvFinalResult = count_list (events s) EvFinalResult"
    and "opened_for_write (events s') = opened_for_write (events s)"
    and "frames_processed s' =
           frames_processed s + length (take (chunk_bytes s) (unread (wf s)))"
    and "task_completed s' =
           task_completed s + length (take (chunk_bytes s) (unread (wf s)))"
    and "total_frames s' = total_frames s"
    and "iter s' = Suc (iter s)"
    and "length (results s') + count_list (events s) EvResult =
           length (results s) + count_list (events s') EvResult"
  using assms
  by (auto simp: feed_step_def readframes_def chunk_size_def chunk_bytes_def Let_def
        framesize_def reads_of_append advances_append live_rows_append count_list_append
        opened_for_write_append
           split: prod.splits if_splits sum.splits)

subsection \<open>The whole loop\<close>

declare feed_loop.simps [simp del]

lemma chunks_of_Nil [simp]: "chunks_of n [] = []"
  by simp

lemma chunks_of_step:
  "0 < n \<Longrightarrow> xs \<noteq> [] \<Longrightarrow> chunks_of n xs = take n xs # chunks_of n (drop n xs)"
  by (subst chunks_of.simps) simp

declare chunks_of.simps [simp del]

lemma take_Nil_pos: "take n xs = [] \<Longrightarrow> 0 < n \<Longrightarrow> xs = []"
  by (cases xs) auto

lemma feed_loop_None:
  "0 < chunk_bytes s \<Longrightarrow> feed_loop env s = (None, s') \<Longrightarrow>
     reads_of (events s') =
       reads_of (events s) @ chunks_of (chunk_bytes s) (unread (wf s)) @ [[]] \<and>
     advances (events s') =
       advances (events s) @ map length (chunks_of (chunk_bytes s) (unread (wf s))) \<and>
     map fst (live_rows (events s')) =
       map fst (live_rows (events s)) @
       running_sums (frames_processed s)
         (map length (chunks_of (chunk_bytes s) (unread (wf s)))) \<and>
     frames_processed s' = frames_processed s + length (unread (wf s)) \<and>
     task_completed s' = task_completed s + length (unread (wf s)) \<and>
     total_frames s' = total_frames s"
proof (induction env s rule: feed_loop.induct)
  case (1 env s)
  let ?k = "chunk_bytes s" and ?d = "unread (wf s)"
  show ?case
  proof (cases "feed_step env s")
    case (Break x)
    with "1.prems" have eq: "s' = x" by (simp add: feed_loop.simps)
    from feed_step_Break(1)[OF Break] "1.prems"(1) have "?d = []"
      by (rule take_Nil_pos)
    with feed_step_Break[OF Break] eq show ?thesis
      by (simp add: reads_of_append advances_append live_rows_append)
  next
    case (Raise e x)
    with "1.prems" show ?thesis by (simp add: feed_loop.simps)
  next
    case (Next x)
    note st = feed_step_Next[OF Next]
    from Next "1.prems" have loop: "feed_loop env x = (None, s')"
      by (simp add: feed_loop.simps)
    from st(3) "1.prems"(1) have pos: "0 < chunk_bytes x" by simp
    note IH = "1.IH"[OF Next pos loop]
    from st(1) have ne: "?d \<noteq> []" by auto
    have ch: "chunks_of ?k ?d = take ?k ?d # chunks_of ?k (drop ?k ?d)"
      using "1.prems"(1) ne by (rule chunks_of_step)
    have len: "length (take ?k ?d) + length (drop ?k ?d) = length ?d"
      by simp
    show ?thesis
      using IH st(2,3,4,5,6,10,11,12) ch len
      by (simp del: length_take length_drop)
  qed
qed

lemma feed_loop_any:
  "feed_loop env s = (x, s') \<Longrightarrow>
     count_list (events s') EvWaveClose = count_list (events s) EvWaveClose \<and>
     count_list (events s') EvFinalResult = count_list (events s) EvFinalResult \<and>
     opened_for_write (events s') = opened_for_write (events s) \<and>
     length (results s') + count_list (events s) EvResult =
       length (results s) + count_list (events s') EvResult \<and>
     (\<exists>new. live_rows (events s') = live_rows (events s) @ new \<and>
            rows_ok env (total_frames s) (iter s) new)"
proof (induction env s rule: feed_loop.induct)
  case (1 env s)
  show ?case
  proof (cases "feed_step env s")
    case (Break y)
    with "1.prems" have "s' = y" by (simp add: feed_loop.simps)
    with feed_step_Break[OF Break] show ?thesis
      by (simp add: count_list_append opened_for_write_append live_rows_append)
  next
    case (Raise e y)
    with "1.prems" have "s' = y" by (simp add: feed_loop.simps)
    with feed_step_Raise[OF Raise] show ?thesis
      by (simp add: count_list_append opened_for_write_append live_rows_append)
  next
    case (Next y)
    note st = feed_step_Next[OF Next]
    from Next "1.prems" have loop: "feed_loop env y = (x, s')"
      by (simp add: feed_loop.simps)
    from "1.IH"[OF Next loop] obtain new where
      c: "count_list (events s') EvWaveClose = count_list (events y) EvWaveClose"
         "count_list (events s') EvFinalResult = count_list (events y) EvFinalResult"
         "opened_for_write (events s') = opened_for_write (events y)"
         "length (results s') + count_list (events y) EvResult =
            length (results y) + count_list (events s') EvResult"
      and new: "live_rows (events s') = live_rows (events y) @ new"
               "rows_ok env (total_frames y) (iter y) new"
      by blast
    let ?row = "(frames_processed y, total_frames s, or_zero (task_speed env (iter s)),
                 or_zero (task_time_remaining env (iter s)))"
    have r1: "live_rows (events s') = live_rows (events s) @ (?row # new)"
      using new(1) st(6) by simp
    have r2: "rows_ok env (total_frames s) (iter s) (?row # new)"
      using new(2) st(12,13) by simp
    have r3: "length (results s') + count_list (events s) EvResult =
                length (results s) + count_list (events s') EvResult"
      using c(4) st(14) by linarith
    have r4: "\<exists>new. live_rows (events s') = live_rows (events s) @ new \<and>
                rows_ok env (total_frames s) (iter s) new"
      using r1 r2 by blast
    show ?thesis
      using c(1,2,3) st(7,8,9) r3 r4 by simp
  qed
qed

lemma rows_ok_nth:
  "rows_ok env tot i rs \<Longrightarrow> j < length rs \<Longrightarrow>
     fst (snd (rs ! j)) = tot \<and>
     fst (snd (snd (rs ! j))) = or_zero (task_speed env (i + j)) \<and>
     snd (snd (snd (rs ! j))) = or_zero (task_time_remaining env (i + j))"
proof (induction rs arbitrary: i j)
  case Nil
  then show ?case by simp
next
  case (Cons r rs)
  obtain a b c d where r: "r = (a, b, c, d)" by (cases r) auto
  show ?case
  proof (cases j)
    case 0
    with Cons.prems r show ?thesis by simp
  next
    case (Suc j')
    with Cons.prems r have "rows_ok env tot (Suc i) rs" "j' < length rs" by simp_all
    from Cons.IH[OF this] Suc show ?thesis by simp
  qed
qed

lemma feed_loop_Some:
  "feed_loop env s = (Some e, s') \<Longrightarrow> \<exists>r d. accept_waveform env r d = Inl e"
proof (induction env s rule: feed_loop.induct)
  case (1 env s)
  show ?case
  proof (cases "feed_step env s")
    case (Break y)
    with "1.prems" show ?thesis by (simp add: feed_loop.simps)
  next
    case (Raise e' y)
    with "1.prems" have "e' = e" by (simp add: feed_loop.simps)
    with feed_step_Raise(3)[OF Raise] show ?thesis by blast
  next
    case (Next y)
    with "1.prems" have "feed_loop env y = (Some e, s')" by (simp add: feed_loop.simps)
    from "1.IH"[OF Next this] show ?thesis .
  qed
qed

subsection \<open>Cutting into chunks\<close>

lemma concat_chunks_of: "0 < n \<Longrightarrow> concat (chunks_of n xs) = xs"
proof (induction n xs rule: chunks_of.induct)
  case (1 n xs)
  show ?case
  proof (cases "xs = []")
    case True
    then show ?thesis by simp
  next
    case False
    with "1.prems" "1.IH" show ?thesis by (simp add: chunks_of_step)
  qed
qed

lemma chunks_of_bounds:
  "0 < n \<Longrightarrow> c \<in> set (chunks_of n xs) \<Longrightarrow> 0 < length c \<and> length c \<le> n"
proof (induction n xs rule: chunks_of.induct)
  case (1 n xs)
  show ?case
  proof (cases "xs = []")
    case True
    with "1.prems" show ?thesis by simp
  next
    case False
    with "1.prems" "1.IH" show ?thesis by (auto simp: chunks_of_step)
  qed
qed

lemma chunks_of_full:
  "0 < n \<Longrightarrow> Suc i < length (chunks_of n xs) \<Longrightarrow> length (chunks_of n xs ! i) = n"
proof (induction n xs arbitrary: i rule: chunks_of.induct)
  case (1 n xs)
  show ?case
  proof (cases "xs = []")
    case True
    with "1.prems" show ?thesis by simp
  next
    case False
    note ch = chunks_of_step[OF "1.prems"(1) False]
    show ?thesis
    proof (cases i)
      case 0
      with "1.prems"(2) ch have "chunks_of n (drop n xs) \<noteq> []" by auto
      then have "drop n xs \<noteq> []" by auto
      then have "n < length xs" by simp
      with 0 ch show ?thesis by simp
    next
      case (Suc j)
      with "1.prems"(2) ch have "Suc j < length (chunks_of n (drop n xs))" by simp
      with "1.IH" "1.prems"(1) False have "length (chunks_of n (drop n xs) ! j) = n" by simp
      with Suc ch show ?thesis by simp
    qed
  qed
qed

subsection \<open>Saving, displaying and finishing\<close>

lemma write_lines_not_str:
  "map_of r ''text'' = Some v \<Longrightarrow> (\<And>t. v \<noteq> JStr t) \<Longrightarrow>
     write_lines werr (r # rs) acc = (Some TypeError, acc)"
  by (cases v) auto

lemma write_lines_prefix:
  "write_lines werr rs acc = (x, c) \<Longrightarrow>
     \<exists>m. c = acc @ text_lines (take m (texts rs)) \<and> (x = None \<longrightarrow> m = length (texts rs))"
proof (induction rs arbitrary: acc)
  case Nil
  then show ?case by simp
next
  case (Cons r rs)
  have stop: "c = acc \<Longrightarrow> x \<noteq> None \<Longrightarrow> ?case"
  proof -
    assume "c = acc" and nn: "x \<noteq> None"
    then have "c = acc @ text_lines (take 0 (texts (r # rs)))" by simp
    with nn show ?case by blast
  qed
  show ?case
  proof (cases "map_of r ''text''")
    case None
    with Cons show ?thesis by simp
  next
    case (Some v)
    show ?thesis
    proof (cases "\<exists>t. v = JStr t")
      case False
      then have "write_lines werr (r # rs) acc = (Some TypeError, acc)"
        using write_lines_not_str[OF Some] by blast
      with Cons.prems have "c = acc" "x \<noteq> None" by auto
      then show ?thesis by (rule stop)
    next
      case True
      then obtain t where t: "v = JStr t" by blast
      show ?thesis
      proof (cases werr)
        case (Some e)
        with Cons.prems \<open>map_of r ''text'' = Some v\<close> t have "c = acc" "x \<noteq> None"
          by auto
        then show ?thesis by (rule stop)
      next
        case None
        with Cons.prems Some t have "write_lines werr rs (acc @ t @ newline) = (x, c)"
          by simp
        from Cons.IH[OF this] obtain m where
          m: "c = (acc @ t @ newline) @ text_lines (take m (texts rs))"
             "x = None \<longrightarrow> m = length (texts rs)"
          by blast
        have "c = acc @ text_lines (take (Suc m) (texts (r # rs)))"
          using m(1) Some t by simp
        moreover have "x = None \<longrightarrow> Suc m = length (texts (r # rs))"
          using m(2) Some by simp
        ultimately show ?thesis by blast
      qed
    qed
  qed
qed

lemma write_lines_ok:
  "\<forall>r\<in>set rs. text_is_str r \<Longrightarrow>
     write_lines None rs acc = (None, acc @ text_lines (texts rs))"
  by (induction rs arbitrary: acc)
     (auto simp: text_is_str_def split: option.splits json.splits)

lemma display_results_trace:
  "\<exists>ps. snd (display_results rs ev) = ev @ map EvPrint ps"
proof (induction rs arbitrary: ev)
  case Nil
  have "snd (display_results [] ev) = ev @ map EvPrint []" by simp
  then show ?case by blast
next
  case (Cons r rs)
  show ?case
  proof (cases "map_of r ''text''")
    case None
    with Cons show ?thesis by simp
  next
    case (Some v)
    show ?thesis
    proof (cases v)
      case (JStr t)
      from Cons[of "ev @ [EvPrint t]"] obtain ps where
        "snd (display_results rs (ev @ [EvPrint t])) = (ev @ [EvPrint t]) @ map EvPrint ps"
        by blast
      then have "snd (display_results (r # rs) ev) = ev @ map EvPrint (t # ps)"
        using Some JStr by simp
      then show ?thesis by blast
    qed (use Some in \<open>simp_all add: exI[of _ "[]"]\<close>)
  qed
qed

lemma display_results_ok:
  "\<forall>r\<in>set rs. text_is_str r \<Longrightarrow> fst (display_results rs ev) = None"
  by (induction rs arbitrary: ev)
     (auto simp: text_is_str_def split: option.splits json.splits)

lemma prints_quiet:
  "reads_of (map EvPrint ps) = []"
  "live_rows (map EvPrint ps) = []"
  "advances (map EvPrint ps) = []"
  "opened_for_write (map EvPrint ps) = []"
  "save_errors (map EvPrint ps) = []"
  "count_list (map EvPrint ps) EvWaveClose = 0"
  "count_list (map EvPrint ps) EvFinalResult = 0"
  "count_list (map EvPrint ps) EvResult = 0"
  "count_list (map EvPrint ps) (EvInput q) = 0"
  by (induction ps) simp_all

lemma save_results_quiet:
  "reads_of (fst (save_results env rs oj ot fs0)) = []"
  "live_rows (fst (save_results env rs oj ot fs0)) = []"
  "advances (fst (save_results env rs oj ot fs0)) = []"
  "count_list (fst (save_results env rs oj ot fs0)) EvWaveClose = 0"
  "count_list (fst (save_results env rs oj ot fs0)) EvFinalResult = 0"
  "count_list (fst (save_results env rs oj ot fs0)) EvResult = 0"
  "count_list (fst (save_results env rs oj ot fs0)) (EvInput q) = 0"
  by (simp_all add: save_results_def Let_def split: option.splits prod.splits)

lemma finish_trace:
  "\<exists>ps. trace (finish env s oj ot fs0) =
     events s @ [EvFinalResult, Step ClosingAudio, EvWaveClose, Step AudioClosed,
                 Step SavingResults]
     @ fst (save_results env (results s @ [fst (final_result env (rcg s))]) oj ot fs0)
     @ Step TranscriptionResult # map EvPrint ps"
proof -
  obtain fin r' where f: "final_result env (rcg s) = (fin, r')" by (cases "final_result env (rcg s)")
  obtain ev2 fs1 where sv: "save_results env (results s @ [fin]) oj ot fs0 = (ev2, fs1)"
    by (cases "save_results env (results s @ [fin]) oj ot fs0")
  let ?ev = "events s @ [EvFinalResult, Step ClosingAudio, EvWaveClose, Step AudioClosed,
                 Step SavingResults] @ ev2 @ [Step TranscriptionResult]"
  from display_results_trace[of "results s @ [fin]" ?ev] obtain ps where
    ps: "snd (display_results (results s @ [fin]) ?ev) = ?ev @ map EvPrint ps" by blast
  have "trace (finish env s oj ot fs0) = snd (display_results (results s @ [fin]) ?ev)"
    by (simp add: finish_def f sv Let_def split: prod.splits option.splits)
  with ps f sv show ?thesis by auto
qed

lemma finish_fields:
  "fsys (finish env s oj ot fs0) =
     snd (save_results env (results s @ [fst (final_result env (rcg s))]) oj ot fs0)"
  "records (finish env s oj ot fs0) = results s @ [fst (final_result env (rcg s))]"
  "status (finish env s oj ot fs0) \<noteq> Exited n"
  by (simp_all add: finish_def Let_def split: prod.splits option.splits)

subsection \<open>The paths through \<open>transcribe_audio\<close>\<close>

lemma quiet_opening: "quiet (opening_events mp af w)"
  by (simp add: quiet_def opening_events_def)

lemma feed_loop_no_raise:
  assumes "\<And>r d. \<exists>v. accept_waveform env r d = Inr v"
  shows "fst (feed_loop env s) = None"
proof (cases "feed_loop env s")
  case (Pair x s')
  show ?thesis
  proof (cases x)
    case None
    with Pair show ?thesis by simp
  next
    case (Some e)
    with Pair have "feed_loop env s = (Some e, s')" by simp
    from feed_loop_Some[OF this] obtain r d where "accept_waveform env r d = Inl e" by blast
    with assms[of r d] show ?thesis by auto
  qed
qed

lemma transcribe_audio_loop:
  assumes "path_exists env mp" "load_model env mp = Inr m" "path_exists env af"
    "wave_open env af = Inr w" "valid_format w" "new_recognizer env m (framerate w) = Inr r"
  shows "transcribe_audio env mp af oj ot fs0 =
     (case feed_loop env (start_state w r (opening_events mp af w)) of
        (Some e, s) \<Rightarrow> \<lparr>status = Uncaught e, trace = events s, fsys = fs0, records = results s\<rparr>
      | (None, s) \<Rightarrow> finish env s oj ot fs0)"
  using assms
  by (simp add: transcribe_audio_def valid_format_def opening_events_def Let_def)

lemma transcribe_audio_cases:
  "(quiet (trace (transcribe_audio env mp af oj ot fs0)) \<and>
    fsys (transcribe_audio env mp af oj ot fs0) = fs0 \<and>
    records (transcribe_audio env mp af oj ot fs0) = [] \<and>
    exit_code (status (transcribe_audio env mp af oj ot fs0)) = 1) \<or>
   (\<exists>m w r. path_exists env mp \<and> load_model env mp = Inr m \<and> path_exists env af \<and>
      wave_open env af = Inr w \<and> valid_format w \<and> new_recognizer env m (framerate w) = Inr r)"
proof (cases "path_exists env mp")
  case False
  then show ?thesis by (simp add: transcribe_audio_def quiet_def)
next
  case mp: True
  show ?thesis
  proof (cases "load_model env mp")
    case (Inl e)
    with mp show ?thesis by (simp add: transcribe_audio_def quiet_def)
  next
    case m: (Inr m)
    show ?thesis
    proof (cases "path_exists env af")
      case False
      with mp m show ?thesis by (simp add: transcribe_audio_def quiet_def)
    next
      case af: True
      show ?thesis
      proof (cases "wave_open env af")
        case (Inl e)
        with mp m af show ?thesis by (simp add: transcribe_audio_def quiet_def)
      next
        case w: (Inr w)
        show ?thesis
        proof (cases "valid_format w")
          case False
          with mp m af w show ?thesis
            by (simp add: transcribe_audio_def quiet_def valid_format_def)
        next
          case v: True
          show ?thesis
          proof (cases "new_recognizer env m (framerate w)")
            case (Inl e)
            with mp m af w v show ?thesis
              by (simp add: transcribe_audio_def quiet_def valid_format_def)
          next
            case (Inr r)
            with mp m af w v show ?thesis by blast
          qed
        qed
      qed
    qed
  qed
qed

lemma transcribe_audio_reject:
  assumes "wave_open env af = Inr w" "\<not> valid_format w"
  shows "quiet (trace (transcribe_audio env mp af oj ot fs0)) \<and>
    fsys (transcribe_audio env mp af oj ot fs0) = fs0 \<and>
    records (transcribe_audio env mp af oj ot fs0) = [] \<and>
    exit_code (status (transcribe_audio env mp af oj ot fs0)) = 1"
  using transcribe_audio_cases[of env mp af oj ot fs0] assms by auto

lemma start_state_simps [simp]:
  "wf (start_state w r ev) = w" "rcg (start_state w r ev) = r"
  "results (start_state w r ev) = []" "frames_processed (start_state w r ev) = 0"
  "total_frames (start_state w r ev) = nframes w" "task_completed (start_state w r ev) = 0"
  "iter (start_state w r ev) = 0" "events (start_state w r ev) = ev"
  by (simp_all add: start_state_def)

lemma chunk_bytes_valid: "valid_format w \<Longrightarrow> chunk_bytes (start_state w r ev) = 8000"
  by (simp add: chunk_bytes_def valid_format_def framesize_def chunk_size_def)

lemma count_list_0_notin: "count_list xs x = 0 \<Longrightarrow> x \<notin> set xs"
  by (simp add: count_list_0_iff)

lemma demo_feed_empty:
  "feed_loop (demo_env w0) (start_state (mono_wave 0) r ev) =
     (None, (start_state (mono_wave 0) r ev)\<lparr>events := ev @ [EvRead chunk_size []]\<rparr>)"
  by (simp add: feed_loop.simps feed_step_def readframes_def mono_wave_def start_state_def
        chunk_size_def framesize_def)

lemma demo_run_empty:
  "transcribe_audio (demo_env (mono_wave 0)) model_path ''a.wav'' ''output.json''
     ''output.txt'' Map.empty =
   \<lparr>status = Finished,
    trace = opening_events model_path ''a.wav'' (mono_wave 0) @
      [EvRead chunk_size [], EvFinalResult, Step ClosingAudio, EvWaveClose, Step AudioClosed,
       Step SavingResults, EvOpenWrite ''output.json'', EvDump ''output.json'',
       Step (SavedTo ''output.json''), EvOpenWrite ''output.txt'',
       EvWrite ''output.txt'' newline, Step (SavedTo ''output.txt''),
       Step TranscriptionResult, EvPrint []],
    fsys = [''output.json'' \<mapsto> JsonDoc [[(''text'', JStr [])]],
            ''output.txt'' \<mapsto> TextDoc newline],
    records = [[(''text'', JStr [])]]\<rparr>"
proof -
  have c: "path_exists (demo_env (mono_wave 0)) model_path"
    "load_model (demo_env (mono_wave 0)) model_path = Inr ()"
    "path_exists (demo_env (mono_wave 0)) ''a.wav''"
    "wave_open (demo_env (mono_wave 0)) ''a.wav'' = Inr (mono_wave 0)"
    "valid_format (mono_wave 0)"
    "new_recognizer (demo_env (mono_wave 0)) () (framerate (mono_wave 0)) = Inr 0"
    by (simp_all add: demo_env_def model_path_def valid_format_def mono_wave_def)
  show ?thesis
    unfolding transcribe_audio_loop[OF c] demo_feed_empty
    by (simp add: finish_def save_results_def demo_env_def Let_def)
qed

lemma raising_run:
  "transcribe_audio raising_env model_path ''a.wav'' ''output.json'' ''output.txt'' Map.empty =
   \<lparr>status = Uncaught (Error ''decoder failure''),
    trace = opening_events model_path ''a.wav'' (mono_wave 1) @
      [EvRead chunk_size [0, 0], EvAccept [0, 0]],
    fsys = Map.empty, records = []\<rparr>"
proof -
  have c: "path_exists raising_env model_path"
    "load_model raising_env model_path = Inr ()"
    "path_exists raising_env ''a.wav''"
    "wave_open raising_env ''a.wav'' = Inr (mono_wave 1)"
    "valid_format (mono_wave 1)"
    "new_recognizer raising_env () (framerate (mono_wave 1)) = Inr 0"
    by (simp_all add: raising_env_def demo_env_def model_path_def valid_format_def
          mono_wave_def)
  have "feed_loop raising_env (start_state (mono_wave 1) 0 ev) =
     (Some (Error ''decoder failure''),
      (start_state (mono_wave 1) 0 ev)
        \<lparr>wf := (mono_wave 1)\<lparr>unread := []\<rparr>, frames_processed := 2,
         events := ev @ [EvRead chunk_size [0, 0], EvAccept [0, 0]]\<rparr>)" for ev
    by (simp add: feed_loop.simps feed_step_def readframes_def mono_wave_def start_state_def
        chunk_size_def framesize_def raising_env_def demo_env_def numeral_2_eq_2)
  then show ?thesis
    unfolding transcribe_audio_loop[OF c]
    by simp
qed

lemma last_prints_not_accept:
  "last (xs @ Step TranscriptionResult # map EvPrint ps) \<noteq> EvAccept d"
  by (cases ps rule: rev_cases) simp_all

lemma finish_close_count:
  assumes "count_list (events s) EvWaveClose = 0" "count_list (events s) EvFinalResult = 0"
  shows "count_list (trace (finish env s oj ot fs0)) EvWaveClose = 1 \<and>
         count_list (trace (finish env s oj ot fs0)) EvFinalResult = 1 \<and>
         last (trace (finish env s oj ot fs0)) \<noteq> EvAccept d"
proof -
  from finish_trace[of env s oj ot fs0] obtain ps where
    t: "trace (finish env s oj ot fs0) =
     events s @ [EvFinalResult, Step ClosingAudio, EvWaveClose, Step AudioClosed,
                 Step SavingResults]
     @ fst (save_results env (results s @ [fst (final_result env (rcg s))]) oj ot fs0)
     @ Step TranscriptionResult # map EvPrint ps" by blast
  have l: "last (trace (finish env s oj ot fs0)) \<noteq> EvAccept d"
    unfolding t append_assoc[symmetric] by (rule last_prints_not_accept)
  have "count_list (trace (finish env s oj ot fs0)) EvWaveClose = 1"
    unfolding t using assms(1)
    by (simp add: count_list_append save_results_quiet prints_quiet)
  moreover have "count_list (trace (finish env s oj ot fs0)) EvFinalResult = 1"
    unfolding t using assms(2)
    by (simp add: count_list_append save_results_quiet prints_quiet)
  ultimately show ?thesis using l by simp
qed

lemma transcribe_audio_success:
  assumes "path_exists env mp" "load_model env mp = Inr m" "path_exists env af"
    "wave_open env af = Inr w" "valid_format w" "new_recognizer env m (framerate w) = Inr r"
    and "\<And>r d. \<exists>v. accept_waveform env r d = Inr v"
  shows "\<exists>s'. feed_loop env (start_state w r (opening_events mp af w)) = (None, s') \<and>
           transcribe_audio env mp af oj ot fs0 = finish env s' oj ot fs0"
proof -
  from feed_loop_no_raise[of env "start_state w r (opening_events mp af w)"] assms(7)
  have "fst (feed_loop env (start_state w r (opening_events mp af w))) = None" by blast
  then obtain s' where fl: "feed_loop env (start_state w r (opening_events mp af w)) = (None, s')"
    by (cases "feed_loop env (start_state w r (opening_events mp af w))") auto
  with transcribe_audio_loop[OF assms(1-6), of oj ot fs0] show ?thesis by simp
qed

lemma finish_observations:
  "reads_of (trace (finish env s oj ot fs0)) = reads_of (events s)"
  "live_rows (trace (finish env s oj ot fs0)) = live_rows (events s)"
  "advances (trace (finish env s oj ot fs0)) = advances (events s)"
  "count_list (trace (finish env s oj ot fs0)) EvResult = count_list (events s) EvResult"
proof -
  from finish_trace[of env s oj ot fs0] obtain ps where
    t: "trace (finish env s oj ot fs0) =
     events s @ [EvFinalResult, Step ClosingAudio, EvWaveClose, Step AudioClosed,
                 Step SavingResults]
     @ fst (save_results env (results s @ [fst (final_result env (rcg s))]) oj ot fs0)
     @ Step TranscriptionResult # map EvPrint ps" by blast
  show "reads_of (trace (finish env s oj ot fs0)) = reads_of (events s)"
    unfolding t by (simp add: reads_of_append save_results_quiet prints_quiet)
  show "live_rows (trace (finish env s oj ot fs0)) = live_rows (events s)"
    unfolding t by (simp add: live_rows_append save_results_quiet prints_quiet)
  show "advances (trace (finish env s oj ot fs0)) = advances (events s)"
    unfolding t by (simp add: advances_append save_results_quiet prints_quiet)
  show "count_list (trace (finish env s oj ot fs0)) EvResult = count_list (events s) EvResult"
    unfolding t by (simp add: count_list_append save_results_quiet prints_quiet)
qed

lemma transcribe_reads:
  assumes "path_exists env mp" "load_model env mp = Inr m" "path_exists env af"
    "wave_open env af = Inr w" "valid_format w" "new_recognizer env m (framerate w) = Inr r"
    and "\<And>r d. \<exists>v. accept_waveform env r d = Inr v"
  shows "reads_of (trace (transcribe_audio env mp af oj ot fs0)) =
           chunks_of 8000 (unread w) @ [[]]"
proof -
  from transcribe_audio_success[OF assms, of oj ot fs0] obtain s' where
    fl: "feed_loop env (start_state w r (opening_events mp af w)) = (None, s')"
    and o: "transcribe_audio env mp af oj ot fs0 = finish env s' oj ot fs0" by blast
  have cb: "chunk_bytes (start_state w r (opening_events mp af w)) = 8000"
    using assms(5) by (rule chunk_bytes_valid)
  then have pos: "0 < chunk_bytes (start_state w r (opening_events mp af w))" by simp
  from feed_loop_None[OF pos fl] cb quiet_opening[of mp af w]
  have "reads_of (events s') = chunks_of 8000 (unread w) @ [[]]"
    by (simp add: quiet_def)
  then show ?thesis unfolding o by (simp add: finish_observations)
qed

lemma chunks_of_10000:
  "chunks_of 8000 (replicate 10000 (0::byte)) = [replicate 8000 0, replicate 2000 0]"
  by (simp add: chunks_of_step)

lemma demo_conditions:
  "path_exists (demo_env w) model_path"
  "load_model (demo_env w) model_path = Inr ()"
  "path_exists (demo_env w) ''a.wav''"
  "wave_open (demo_env w) ''a.wav'' = Inr w"
  "new_recognizer (demo_env w) () k = Inr 0"
  "\<And>r d. \<exists>v. accept_waveform (demo_env w) r d = Inr v"
  by (auto simp: demo_env_def model_path_def)

lemma mono_wave_simps:
  "valid_format (mono_wave n)" "unread (mono_wave n) = replicate (2 * n) 0"
  "nframes (mono_wave n) = n" "framesize (mono_wave n) = 2"
  "framerate (mono_wave n) = 16000"
  by (simp_all add: valid_format_def mono_wave_def framesize_def)

lemma transcribe_rows_ok:
  "\<exists>tot. rows_ok env tot 0 (live_rows (trace (transcribe_audio env mp af oj ot fs0)))"
proof -
  let ?out = "transcribe_audio env mp af oj ot fs0"
  from transcribe_audio_cases[of env mp af oj ot fs0]
  consider (early) "quiet (trace ?out)"
    | (loop) m w r where "path_exists env mp" "load_model env mp = Inr m" "path_exists env af"
        "wave_open env af = Inr w" "valid_format w" "new_recognizer env m (framerate w) = Inr r"
    by blast
  then show ?thesis
  proof cases
    case early
    then have "live_rows (trace ?out) = []" by (simp add: quiet_def)
    then show ?thesis by simp
  next
    case loop
    note eq = transcribe_audio_loop[OF loop, of oj ot fs0]
    obtain x s' where fl: "feed_loop env (start_state w r (opening_events mp af w)) = (x, s')"
      by (cases "feed_loop env (start_state w r (opening_events mp af w))")
    from feed_loop_any[OF fl] quiet_opening[of mp af w]
    have rows: "rows_ok env (nframes w) 0 (live_rows (events s'))"
      by (auto simp: quiet_def)
    have "live_rows (trace ?out) = live_rows (events s')"
    proof (cases x)
      case None
      with eq fl show ?thesis by (simp add: finish_observations)
    next
      case (Some e)
      with eq fl show ?thesis by simp
    qed
    with rows show ?thesis by auto
  qed
qed

lemma or_zero_None: "or_zero None = 0"
  by (simp add: or_zero_def)

lemma demo_feed_5000:
  "fst (feed_loop (demo_env w0) (start_state (mono_wave 5000) 0 ev)) = None"
  "events (snd (feed_loop (demo_env w0) (start_state (mono_wave 5000) 0 ev))) =
     ev @ [EvRead 4000 (replicate 8000 0), EvAccept (replicate 8000 0), EvResult,
           EvAdvance 8000, EvLive 8000 5000 0 0,
           EvRead 4000 (replicate 2000 0), EvAccept (replicate 2000 0), EvResult,
           EvAdvance 2000, EvLive 10000 5000 16000 1,
           EvRead 4000 []]"
  "frames_processed (snd (feed_loop (demo_env w0) (start_state (mono_wave 5000) 0 ev))) = 10000"
  "task_completed (snd (feed_loop (demo_env w0) (start_state (mono_wave 5000) 0 ev))) = 10000"
  "total_frames (snd (feed_loop (demo_env w0) (start_state (mono_wave 5000) 0 ev))) = 5000"
  by (simp_all add: feed_loop.simps feed_step_def readframes_def mono_wave_def start_state_def
        chunk_size_def framesize_def demo_env_def or_zero_def)

lemma demo_rows_5000:
  "live_rows (trace (transcribe_audio (demo_env (mono_wave 5000)) model_path ''a.wav''
      ''output.json'' ''output.txt'' Map.empty)) = [(8000, 5000, 0, 0), (10000, 5000, 16000, 1)]"
proof -
  note c = demo_conditions[of "mono_wave 5000"]
  let ?s0 = "start_state (mono_wave 5000) 0 (opening_events model_path ''a.wav'' (mono_wave 5000))"
  obtain s' where fl: "feed_loop (demo_env (mono_wave 5000)) ?s0 = (None, s')"
    using demo_feed_5000(1)[of "mono_wave 5000" "opening_events model_path ''a.wav'' (mono_wave 5000)"]
    by (cases "feed_loop (demo_env (mono_wave 5000)) ?s0") auto
  then have s': "s' = snd (feed_loop (demo_env (mono_wave 5000)) ?s0)" by simp
  have "transcribe_audio (demo_env (mono_wave 5000)) model_path ''a.wav''
      ''output.json'' ''output.txt'' Map.empty = finish (demo_env (mono_wave 5000)) s'
      ''output.json'' ''output.txt'' Map.empty"
    using transcribe_audio_loop[OF c(1,2,3,4) mono_wave_simps(1) c(5),
            of "''output.json''" "''output.txt''" Map.empty] fl
    by simp
  then show ?thesis
    by (simp add: finish_observations s' demo_feed_5000(2) live_rows_append opening_events_def)
qed

subsection \<open>The prompt loop\<close>

lemma prompt_loop_skip:
  "\<forall>x\<in>set skipped. \<not> path_exists env (strip x) \<Longrightarrow> path_exists env (strip l) \<Longrightarrow>
     prompt_loop env (skipped @ l # rest) ev =
       (Some (strip l), rest,
        ev @ concat (map (\<lambda>x. [EvInput AskAudioPath, EvNotFoundMsg]) skipped)
           @ [EvInput AskAudioPath])"
  by (induction skipped arbitrary: ev) (simp_all add: Let_def)

lemma count_reprompts:
  "count_list (concat (map (\<lambda>x. [EvInput AskAudioPath, EvNotFoundMsg]) xs))
     (EvInput AskAudioPath) = length xs"
  "count_list (concat (map (\<lambda>x. [EvInput AskAudioPath, EvNotFoundMsg]) xs))
     EvNotFoundMsg = length xs"
  "count_list (concat (map (\<lambda>x. [EvInput AskAudioPath, EvNotFoundMsg]) xs))
     (EvInput PressEnter) = 0"
  by (induction xs) simp_all

lemma strip_example: "strip '' notes.txt '' = ''notes.txt''" "strip ''missing.wav'' = ''missing.wav''"
  "strip ''a.wav'' = ''a.wav''"
  by (simp_all add: strip_def is_space_def)

subsection \<open>The loop against its reference\<close>

lemma feed_step_Next_recognizer:
  assumes "feed_step env s = Next s'"
  shows "\<exists>b r1. accept_waveform env (rcg s) (take (chunk_bytes s) (unread (wf s))) = Inr (b, r1) \<and>
           results s' = results s @ (if b then [fst (result env r1)] else []) \<and>
           rcg s' = (if b then snd (result env r1) else r1)"
proof -
  let ?data = "take (chunk_bytes s) (unread (wf s))"
  have rf: "readframes (wf s) chunk_size =
              (?data, (wf s)\<lparr>unread := drop (chunk_bytes s) (unread (wf s))\<rparr>)"
    by (simp add: readframes_def chunk_size_def chunk_bytes_def)
  show ?thesis
  proof (cases "accept_waveform env (rcg s) ?data")
    case (Inl e)
    with assms rf show ?thesis
      by (simp add: feed_step_def Let_def split: if_splits)
  next
    case (Inr p)
    obtain b r1 where p: "p = (b, r1)" by (cases p)
    obtain res r2 where res: "result env r1 = (res, r2)" by (cases "result env r1")
    have acc: "accept_waveform env (rcg s) ?data = Inr (b, r1)" using Inr p by simp
    show ?thesis
    proof (cases b)
      case True
      from assms rf acc True res
      have "results s' = results s @ [res]" "rcg s' = r2"
        by (auto simp: feed_step_def Let_def split: if_splits)
      with acc True res show ?thesis
        by (intro exI[of _ True] exI[of _ r1]) simp
    next
      case False
      from assms rf acc False
      have "results s' = results s" "rcg s' = r1"
        by (auto simp: feed_step_def Let_def split: if_splits)
      with acc False show ?thesis
        by (intro exI[of _ False] exI[of _ r1]) simp
    qed
  qed
qed

lemma run_chunks_Cons_Inr:
  assumes "run_chunks env r (c # cs) = Inr (rs, r')"
    and "accept_waveform env r c = Inr (b, r1)"
  shows "if b then \<exists>rs0. rs = fst (result env r1) # rs0 \<and>
                        run_chunks env (snd (result env r1)) cs = Inr (rs0, r')
         else run_chunks env r1 cs = Inr (rs, r')"
proof (cases b)
  case False
  with assms show ?thesis by simp
next
  case True
  obtain res r2 where res: "result env r1 = (res, r2)" by (cases "result env r1")
  show ?thesis
  proof (cases "run_chunks env r2 cs")
    case (Inl e)
    with assms True res show ?thesis by simp
  next
    case (Inr p)
    obtain rs0 r0 where p: "p = (rs0, r0)" by (cases p)
    with assms True res Inr show ?thesis by simp
  qed
qed

lemma run_chunks_Cons_Inl:
  "accept_waveform env r c = Inl e \<Longrightarrow> run_chunks env r (c # cs) = Inl e"
  by simp

lemma feed_loop_refines:
  "0 < chunk_bytes s \<Longrightarrow>
   run_chunks env (rcg s) (chunks_of (chunk_bytes s) (unread (wf s))) = Inr (rs, r') \<Longrightarrow>
   \<exists>s'. feed_loop env s = (None, s') \<and> results s' = results s @ rs \<and> rcg s' = r' \<and>
        unread (wf s') = []"
proof (induction env s arbitrary: rs rule: feed_loop.induct)
  case (1 env s)
  let ?k = "chunk_bytes s" and ?d = "unread (wf s)"
  show ?case
  proof (cases "feed_step env s")
    case (Break x)
    from feed_step_Break(1)[OF Break] "1.prems"(1) have d: "?d = []"
      by (rule take_Nil_pos)
    have "chunks_of ?k ?d = []" unfolding d by (rule chunks_of_Nil)
    with "1.prems"(2) have e: "rs = []" "r' = rcg s" by simp_all
    have l: "feed_loop env s = (None, x)" using Break by (simp add: feed_loop.simps)
    have u: "unread (wf x) = []" unfolding feed_step_Break(9)[OF Break] by (rule d)
    have "results x = results s @ rs" using feed_step_Break(5)[OF Break] e(1) by simp
    moreover have "rcg x = r'" using feed_step_Break(6)[OF Break] e(2) by simp
    ultimately show ?thesis using l u by simp
  next
    case (Raise e x)
    from feed_step_Raise(1)[OF Raise] have ne: "?d \<noteq> []" by auto
    have ch: "chunks_of ?k ?d = take ?k ?d # chunks_of ?k (drop ?k ?d)"
      using "1.prems"(1) ne by (rule chunks_of_step)
    have "run_chunks env (rcg s) (chunks_of ?k ?d) = Inl e"
      unfolding ch using feed_step_Raise(3)[OF Raise] by (rule run_chunks_Cons_Inl)
    with "1.prems"(2) show ?thesis by simp
  next
    case (Next x)
    note st = feed_step_Next[OF Next]
    from st(1) have ne: "?d \<noteq> []" by auto
    have ch: "chunks_of ?k ?d = take ?k ?d # chunks_of ?k (drop ?k ?d)"
      using "1.prems"(1) ne by (rule chunks_of_step)
    have pos: "0 < chunk_bytes x" unfolding st(3) by (rule "1.prems"(1))
    have loop: "feed_loop env s = feed_loop env x" using Next by (simp add: feed_loop.simps)
    have cx: "chunks_of (chunk_bytes x) (unread (wf x)) = chunks_of ?k (drop ?k ?d)"
      unfolding st(2) st(3) by (rule refl)
    from feed_step_Next_recognizer[OF Next] obtain b r1 where
      acc: "accept_waveform env (rcg s) (take ?k ?d) = Inr (b, r1)"
      and upd: "results x = results s @ (if b then [fst (result env r1)] else [])"
               "rcg x = (if b then snd (result env r1) else r1)"
      by (elim exE conjE)
    have rc0: "run_chunks env (rcg s) (take ?k ?d # chunks_of ?k (drop ?k ?d)) = Inr (rs, r')"
      using "1.prems"(2) unfolding ch .
    note split = run_chunks_Cons_Inr[OF rc0 acc]
    show ?thesis
    proof (cases b)
      case True
      from split True obtain rs0 where
        rs: "rs = fst (result env r1) # rs0"
        and rc: "run_chunks env (snd (result env r1)) (chunks_of ?k (drop ?k ?d)) = Inr (rs0, r')"
        by auto
      from upd True have x: "results x = results s @ [fst (result env r1)]"
        "rcg x = snd (result env r1)" by simp_all
      have "run_chunks env (rcg x) (chunks_of (chunk_bytes x) (unread (wf x))) = Inr (rs0, r')"
        unfolding cx x(2) by (rule rc)
      from "1.IH"[OF Next pos this] obtain s' where
        s': "feed_loop env x = (None, s')" "results s' = results x @ rs0" "rcg s' = r'"
        "unread (wf s') = []" by blast
      have "results s' = results s @ rs" unfolding s'(2) x(1) rs by simp
      with s'(1,3,4) loop show ?thesis by simp
    next
      case False
      from split False have
        rc: "run_chunks env r1 (chunks_of ?k (drop ?k ?d)) = Inr (rs, r')" by simp
      from upd False have x: "results x = results s" "rcg x = r1" by simp_all
      have "run_chunks env (rcg x) (chunks_of (chunk_bytes x) (unread (wf x))) = Inr (rs, r')"
        unfolding cx x(2) by (rule rc)
      from "1.IH"[OF Next pos this] obtain s' where
        s': "feed_loop env x = (None, s')" "results s' = results x @ rs" "rcg s' = r'"
        "unread (wf s') = []" by blast
      with loop x(1) show ?thesis by simp
    qed
  qed
qed

lemma transcribe_audio_run_chunks:
  assumes "path_exists env mp" "load_model env mp = Inr m" "path_exists env af"
    "wave_open env af = Inr w" "valid_format w" "new_recognizer env m (framerate w) = Inr r"
    and "run_chunks env r (chunks_of 8000 (unread w)) = Inr (rs, r')"
  shows "records (transcribe_audio env mp af oj ot fs0) = rs @ [fst (final_result env r')]"
    and "count_list (trace (transcribe_audio env mp af oj ot fs0)) EvFinalResult = 1"
    and "count_list (trace (transcribe_audio env mp af oj ot fs0)) EvResult = length rs"
    and "reads_of (trace (transcribe_audio env mp af oj ot fs0)) =
           chunks_of 8000 (unread w) @ [[]]"
    and "\<exists>pre post. trace (transcribe_audio env mp af oj ot fs0) = pre @ EvFinalResult # post \<and>
           reads_of pre = chunks_of 8000 (unread w) @ [[]] \<and>
           count_list pre EvResult = length rs \<and>
           reads_of post = [] \<and> count_list post EvResult = 0"
    and "fsys (transcribe_audio env mp af oj ot fs0) =
           snd (save_results env (rs @ [fst (final_result env r')]) oj ot fs0)"
proof -
  let ?out = "transcribe_audio env mp af oj ot fs0"
  let ?s0 = "start_state w r (opening_events mp af w)"
  have cb: "chunk_bytes ?s0 = 8000" using assms(5) by (rule chunk_bytes_valid)
  then have pos: "0 < chunk_bytes ?s0" by simp
  have "run_chunks env (rcg ?s0) (chunks_of (chunk_bytes ?s0) (unread (wf ?s0))) = Inr (rs, r')"
    unfolding cb using assms(7) by simp
  from feed_loop_refines[OF pos this] obtain s' where
    fl: "feed_loop env ?s0 = (None, s')" and res: "results s' = rs" and rc: "rcg s' = r'"
    by auto
  have o: "?out = finish env s' oj ot fs0"
    using transcribe_audio_loop[OF assms(1-6), of oj ot fs0] fl by simp
  have q: "quiet (opening_events mp af w)" by (rule quiet_opening)
  from feed_loop_any[OF fl] q
  have c: "count_list (events s') EvWaveClose = 0" "count_list (events s') EvFinalResult = 0"
    "length (results s') = count_list (events s') EvResult"
    by (simp_all add: quiet_def)
  from feed_loop_None[OF pos fl] q cb
  have rd: "reads_of (events s') = chunks_of 8000 (unread w) @ [[]]"
    by (simp add: quiet_def)
  show "records ?out = rs @ [fst (final_result env r')]"
    unfolding o using finish_fields(2)[of env s' oj ot fs0] res rc by simp
  show "count_list (trace ?out) EvFinalResult = 1"
    unfolding o using finish_close_count[OF c(1,2), of env oj ot fs0 "[]"] by simp
  show "count_list (trace ?out) EvResult = length rs"
    unfolding o using c(3) res by (simp add: finish_observations)
  show "reads_of (trace ?out) = chunks_of 8000 (unread w) @ [[]]"
    unfolding o using rd by (simp add: finish_observations)
  show "fsys ?out = snd (save_results env (rs @ [fst (final_result env r')]) oj ot fs0)"
    unfolding o using finish_fields(1)[of env s' oj ot fs0] res rc by simp
  from finish_trace[of env s' oj ot fs0] obtain ps where
    t: "trace (finish env s' oj ot fs0) =
     events s' @ [EvFinalResult, Step ClosingAudio, EvWaveClose, Step AudioClosed,
                 Step SavingResults]
     @ fst (save_results env (results s' @ [fst (final_result env (rcg s'))]) oj ot fs0)
     @ Step TranscriptionResult # map EvPrint ps" by blast
  let ?post = "[Step ClosingAudio, EvWaveClose, Step AudioClosed, Step SavingResults]
     @ fst (save_results env (results s' @ [fst (final_result env (rcg s'))]) oj ot fs0)
     @ Step TranscriptionResult # map EvPrint ps"
  have tp: "trace ?out = events s' @ EvFinalResult # ?post"
    unfolding o t by simp
  have rp: "reads_of ?post = []"
    by (simp add: reads_of_append save_results_quiet prints_quiet)
  have cp: "count_list ?post EvResult = 0"
    by (simp add: count_list_append save_results_quiet prints_quiet)
  have ce: "count_list (events s') EvResult = length rs" using c(3) res by simp
  from tp rd ce rp cp
  show "\<exists>pre post. trace ?out = pre @ EvFinalResult # post \<and>
           reads_of pre = chunks_of 8000 (unread w) @ [[]] \<and>
           count_list pre EvResult = length rs \<and>
           reads_of post = [] \<and> count_list post EvResult = 0"
    by blast
qed

lemma first_boundary_conditions:
  "path_exists first_boundary_env model_path"
  "load_model first_boundary_env model_path = Inr ()"
  "path_exists first_boundary_env ''a.wav''"
  "wave_open first_boundary_env ''a.wav'' = Inr (mono_wave 5000)"
  "new_recognizer first_boundary_env () k = Inr 0"
  "fst (final_result first_boundary_env k) = [(''text'', JStr [])]"
  by (simp_all add: first_boundary_env_def demo_env_def model_path_def)

lemma first_boundary_chunks:
  "run_chunks first_boundary_env 0 (chunks_of (chunk_size * 2) (unread (mono_wave 5000)))
     = Inr ([[(''text'', JStr ''salam'')]], 2)"
  by (simp add: chunk_size_def mono_wave_simps chunks_of_10000 first_boundary_env_def
        demo_env_def)

lemma truncated_wave_simps:
  "valid_format truncated_wave" "nframes truncated_wave = 5000"
  "length (unread truncated_wave) = 6000"
  by (simp_all add: truncated_wave_def valid_format_def)

section \<open>The claims\<close>

subsection \<open>C1: the two output writes share one handler\<close>

text \<open>
  Claim C1, as stated, fails: the two writes sit in one \<open>try\<close> block with one handler, so
  when \<open>output.json\<close> cannot be opened the text file is never opened.
\<close>

theorem json_failure_skips_text:
  "open_error json_locked_env ''output.json'' = Some (Error ''Permission denied'') \<and>
   open_error json_locked_env ''output.txt'' = None \<and>
   opened_for_write (fst (save_results json_locked_env demo_records ''output.json''
                            ''output.txt'' Map.empty)) = [''output.json''] \<and>
   snd (save_results json_locked_env demo_records ''output.json'' ''output.txt'' Map.empty)
     ''output.txt'' = None"
  by (simp add: save_results_def json_locked_env_def demo_env_def)

text \<open>
  Claim C1, amended. The JSON file is always attempted first, and the text file is attempted
  exactly when the JSON file was opened and dumped without an exception. So a failure on the
  text file leaves the JSON file written, while a failure on the JSON file skips the text
  file. In every case the failure is reported, once, by the handler, and the run goes on to
  the display of the results.
\<close>

theorem save_results_single_handler:
  "opened_for_write (fst (save_results env rs oj ot fs0)) =
     (if open_error env oj = None \<and> write_error env oj = None then [oj, ot] else [oj]) \<and>
   (open_error env oj = None \<and> write_error env oj = None \<and> oj \<noteq> ot \<longrightarrow>
      snd (save_results env rs oj ot fs0) oj = Some (JsonDoc rs)) \<and>
   (open_error env oj = Some e \<longrightarrow> save_errors (fst (save_results env rs oj ot fs0)) = [e]) \<and>
   (open_error env oj = None \<and> write_error env oj = Some e \<longrightarrow>
      save_errors (fst (save_results env rs oj ot fs0)) = [e]) \<and>
   (open_error env oj = None \<and> write_error env oj = None \<and> open_error env ot = Some e \<longrightarrow>
      save_errors (fst (save_results env rs oj ot fs0)) = [e]) \<and>
   (open_error env oj = None \<and> write_error env oj = None \<and> open_error env ot = None \<longrightarrow>
      save_errors (fst (save_results env rs oj ot fs0)) =
        (case fst (write_lines (write_error env ot) rs []) of None \<Rightarrow> [] | Some x \<Rightarrow> [x])) \<and>
   Step TranscriptionResult \<in> set (trace (finish env s oj ot fs0))"
proof -
  have a: "opened_for_write (fst (save_results env rs oj ot fs0)) =
     (if open_error env oj = None \<and> write_error env oj = None then [oj, ot] else [oj])"
    by (auto simp: save_results_def Let_def split: option.splits prod.splits)
  have b: "open_error env oj = None \<and> write_error env oj = None \<and> oj \<noteq> ot \<longrightarrow>
      snd (save_results env rs oj ot fs0) oj = Some (JsonDoc rs)"
    by (auto simp: save_results_def Let_def split: option.splits prod.splits)
  have c: "open_error env oj = Some e \<longrightarrow>
      save_errors (fst (save_results env rs oj ot fs0)) = [e]"
    by (auto simp: save_results_def Let_def split: option.splits prod.splits)
  have d: "open_error env oj = None \<and> write_error env oj = Some e \<longrightarrow>
      save_errors (fst (save_results env rs oj ot fs0)) = [e]"
    by (auto simp: save_results_def Let_def split: option.splits prod.splits)
  have e: "open_error env oj = None \<and> write_error env oj = None \<and> open_error env ot = Some e
      \<longrightarrow> save_errors (fst (save_results env rs oj ot fs0)) = [e]"
    by (auto simp: save_results_def Let_def split: option.splits prod.splits)
  have f: "open_error env oj = None \<and> write_error env oj = None \<and> open_error env ot = None \<longrightarrow>
      save_errors (fst (save_results env rs oj ot fs0)) =
        (case fst (write_lines (write_error env ot) rs []) of None \<Rightarrow> [] | Some x \<Rightarrow> [x])"
    by (auto simp: save_results_def Let_def split: option.splits prod.splits)
  from finish_trace[of env s oj ot fs0]
  have g: "Step TranscriptionResult \<in> set (trace (finish env s oj ot fs0))"
    by auto
  from a b c d e f g show ?thesis by blast
qed

theorem save_results_single_handler_witness:
  "open_error text_locked_env ''output.json'' = None \<and>
   write_error text_locked_env ''output.json'' = None \<and>
   ''output.json'' \<noteq> ''output.txt'' \<and>
   open_error text_locked_env ''output.txt'' = Some (Error ''Permission denied'') \<and>
   opened_for_write (fst (save_results text_locked_env demo_records ''output.json''
                            ''output.txt'' Map.empty)) = [''output.json'', ''output.txt''] \<and>
   snd (save_results text_locked_env demo_records ''output.json'' ''output.txt'' Map.empty)
     ''output.json'' = Some (JsonDoc demo_records) \<and>
   save_errors (fst (save_results text_locked_env demo_records ''output.json''
                       ''output.txt'' Map.empty)) = [Error ''Permission denied''] \<and>
   Step TranscriptionResult
     \<in> set (trace (finish text_locked_env (start_state (mono_wave 0) 0 []) ''output.json''
                     ''output.txt'' Map.empty))"
  using save_results_single_handler[of text_locked_env demo_records "''output.json''"
          "''output.txt''" Map.empty "Error ''Permission denied''"
          "start_state (mono_wave 0) 0 []"]
  by (simp add: text_locked_env_def demo_env_def)

subsection \<open>C2: when the audio handle is closed\<close>

text \<open>
  Claim C2, as stated, fails: a stereo input is opened, rejected with \<open>exit(1)\<close>, and
  \<open>wf.close()\<close> is never called.
\<close>

theorem stereo_input_never_closed:
  "EvWaveOpen ''a.wav'' \<in> set (trace (transcribe_audio (demo_env stereo_wave) model_path
      ''a.wav'' ''output.json'' ''output.txt'' Map.empty)) \<and>
   status (transcribe_audio (demo_env stereo_wave) model_path ''a.wav'' ''output.json''
      ''output.txt'' Map.empty) = Exited 1 \<and>
   count_list (trace (transcribe_audio (demo_env stereo_wave) model_path ''a.wav''
      ''output.json'' ''output.txt'' Map.empty)) EvWaveClose = 0"
  by (simp add: transcribe_audio_def demo_env_def stereo_wave_def model_path_def)

text \<open>
  Claim C2, amended. The pipeline closes the audio handle exactly once when the loop
  completes and the final result is requested (so on every run that finishes), and never
  otherwise: not on any \<open>exit(1)\<close>, validation failure included, and not when
  \<open>AcceptWaveform\<close> raises inside the loop, where the trace ends with that call.
\<close>

theorem audio_closed_only_after_loop:
  "count_list (trace (transcribe_audio env mp af oj ot fs0)) EvWaveClose =
     (if EvFinalResult \<in> set (trace (transcribe_audio env mp af oj ot fs0)) then 1 else 0) \<and>
   (status (transcribe_audio env mp af oj ot fs0) = Finished \<longrightarrow>
      count_list (trace (transcribe_audio env mp af oj ot fs0)) EvWaveClose = 1) \<and>
   (status (transcribe_audio env mp af oj ot fs0) = Exited n \<longrightarrow>
      count_list (trace (transcribe_audio env mp af oj ot fs0)) EvWaveClose = 0) \<and>
   (last (trace (transcribe_audio env mp af oj ot fs0)) = EvAccept d \<longrightarrow>
      count_list (trace (transcribe_audio env mp af oj ot fs0)) EvWaveClose = 0)"
proof -
  let ?out = "transcribe_audio env mp af oj ot fs0"
  from transcribe_audio_cases[of env mp af oj ot fs0]
  consider (early) "quiet (trace ?out)" "exit_code (status ?out) = 1"
    | (loop) m w r where "path_exists env mp" "load_model env mp = Inr m" "path_exists env af"
        "wave_open env af = Inr w" "valid_format w" "new_recognizer env m (framerate w) = Inr r"
    by blast
  then show ?thesis
  proof cases
    case early
    from early(1) have c: "count_list (trace ?out) EvWaveClose = 0"
      "count_list (trace ?out) EvFinalResult = 0"
      by (simp_all add: quiet_def)
    from c(2) have "EvFinalResult \<notin> set (trace ?out)" by (rule count_list_0_notin)
    moreover from early(2) have "status ?out \<noteq> Finished" by auto
    ultimately show ?thesis using c(1) by simp
  next
    case loop
    note eq = transcribe_audio_loop[OF loop, of oj ot fs0]
    obtain x s' where fl: "feed_loop env (start_state w r (opening_events mp af w)) = (x, s')"
      by (cases "feed_loop env (start_state w r (opening_events mp af w))")
    from feed_loop_any[OF fl] quiet_opening[of mp af w]
    have c: "count_list (events s') EvWaveClose = 0" "count_list (events s') EvFinalResult = 0"
      by (simp_all add: quiet_def)
    show ?thesis
    proof (cases x)
      case (Some e)
      with eq fl have o: "?out = \<lparr>status = Uncaught e, trace = events s', fsys = fs0,
          records = results s'\<rparr>" by simp
      from c(2) have "EvFinalResult \<notin> set (events s')" by (rule count_list_0_notin)
      with o c(1) show ?thesis by simp
    next
      case None
      with eq fl have o: "?out = finish env s' oj ot fs0" by simp
      from finish_close_count[OF c, of env oj ot fs0 d]
      have f: "count_list (trace ?out) EvWaveClose = 1"
        "count_list (trace ?out) EvFinalResult = 1"
        "last (trace ?out) \<noteq> EvAccept d"
        unfolding o by simp_all
      from f(2) have "EvFinalResult \<in> set (trace ?out)"
        by (metis count_list_0_iff zero_neq_one)
      moreover have "status ?out \<noteq> Exited n" unfolding o by (rule finish_fields(3))
      ultimately show ?thesis using f(1,3) by simp
    qed
  qed
qed

theorem audio_closed_only_after_loop_witness:
  "status (transcribe_audio (demo_env (mono_wave 0)) model_path ''a.wav'' ''output.json''
     ''output.txt'' Map.empty) = Finished \<and>
   count_list (trace (transcribe_audio (demo_env (mono_wave 0)) model_path ''a.wav''
     ''output.json'' ''output.txt'' Map.empty)) EvWaveClose = 1 \<and>
   last (trace (transcribe_audio raising_env model_path ''a.wav'' ''output.json''
     ''output.txt'' Map.empty)) = EvAccept [0, 0] \<and>
   count_list (trace (transcribe_audio raising_env model_path ''a.wav'' ''output.json''
     ''output.txt'' Map.empty)) EvWaveClose = 0"
proof -
  have s: "status (transcribe_audio (demo_env (mono_wave 0)) model_path ''a.wav''
     ''output.json'' ''output.txt'' Map.empty) = Finished"
    by (simp add: demo_run_empty)
  have l: "last (trace (transcribe_audio raising_env model_path ''a.wav'' ''output.json''
     ''output.txt'' Map.empty)) = EvAccept [0, 0]"
    by (simp add: raising_run)
  from audio_closed_only_after_loop[of "demo_env (mono_wave 0)" model_path "''a.wav''"
        "''output.json''" "''output.txt''" Map.empty 1 "[]"]
       audio_closed_only_after_loop[of raising_env model_path "''a.wav''"
        "''output.json''" "''output.txt''" Map.empty 1 "[0, 0]"] s l
  show ?thesis by simp
qed

subsection \<open>C3: the size of the chunks\<close>

text \<open>
  Claim C3, as stated, fails: \<open>chunk_size = 4000\<close> is passed to \<open>readframes\<close>, which counts
  frames. A mono 16-bit stream of 5000 frames (10000 bytes) is read as a chunk of 8000
  bytes, a chunk of 2000 bytes and the empty read that ends the loop.
\<close>

theorem chunks_of_8000_bytes:
  "map length (reads_of (trace (transcribe_audio (demo_env (mono_wave 5000)) model_path
      ''a.wav'' ''output.json'' ''output.txt'' Map.empty))) = [8000, 2000, 0]"
proof -
  note c = demo_conditions[of "mono_wave 5000"]
  from transcribe_reads[OF c(1,2,3,4) mono_wave_simps(1) c(5,6),
         of "''output.json''" "''output.txt''" Map.empty]
  show ?thesis by (simp add: mono_wave_simps chunks_of_10000)
qed

text \<open>
  Claim C3, amended. For every validated stream, when \<open>AcceptWaveform\<close> does not raise, the
  reads are the consecutive pieces of 4000 frames, that is 8000 bytes, of the stream,
  followed by one empty read: they concatenate to the whole stream, every read before the
  last non-empty one has exactly 8000 bytes, and none has more.
\<close>

theorem reads_are_4000_frame_chunks:
  assumes "path_exists env mp" and "load_model env mp = Inr m" and "path_exists env af"
    and "wave_open env af = Inr w" and "valid_format w"
    and "new_recognizer env m (framerate w) = Inr r"
    and "\<And>r d. \<exists>v. accept_waveform env r d = Inr v"
  shows "reads_of (trace (transcribe_audio env mp af oj ot fs0)) =
           chunks_of (chunk_size * 2) (unread w) @ [[]] \<and>
         concat (reads_of (trace (transcribe_audio env mp af oj ot fs0))) = unread w \<and>
         (\<forall>i. Suc (Suc i) < length (reads_of (trace (transcribe_audio env mp af oj ot fs0)))
            \<longrightarrow> length (reads_of (trace (transcribe_audio env mp af oj ot fs0)) ! i) = 8000) \<and>
         (\<forall>c \<in> set (reads_of (trace (transcribe_audio env mp af oj ot fs0))).
            length c \<le> 8000)"
proof -
  let ?R = "reads_of (trace (transcribe_audio env mp af oj ot fs0))"
  let ?C = "chunks_of 8000 (unread w)"
  have R: "?R = ?C @ [[]]"
    using assms by (rule transcribe_reads)
  have a: "concat ?R = unread w"
    unfolding R by (simp add: concat_chunks_of)
  have b: "\<forall>i. Suc (Suc i) < length ?R \<longrightarrow> length (?R ! i) = 8000"
  proof (intro allI impI)
    fix i assume "Suc (Suc i) < length ?R"
    then have i: "Suc i < length ?C" unfolding R by simp
    then have "?R ! i = ?C ! i" unfolding R by (simp add: nth_append)
    with chunks_of_full[of 8000 i "unread w"] i show "length (?R ! i) = 8000" by simp
  qed
  have c: "\<forall>c \<in> set ?R. length c \<le> 8000"
    unfolding R using chunks_of_bounds[of 8000 _ "unread w"] by auto
  from R a b c show ?thesis by (simp add: chunk_size_def)
qed

theorem reads_are_4000_frame_chunks_witness:
  "path_exists (demo_env (mono_wave 5000)) model_path \<and>
   load_model (demo_env (mono_wave 5000)) model_path = Inr () \<and>
   path_exists (demo_env (mono_wave 5000)) ''a.wav'' \<and>
   wave_open (demo_env (mono_wave 5000)) ''a.wav'' = Inr (mono_wave 5000) \<and>
   valid_format (mono_wave 5000) \<and>
   new_recognizer (demo_env (mono_wave 5000)) () (framerate (mono_wave 5000)) = Inr 0 \<and>
   reads_of (trace (transcribe_audio (demo_env (mono_wave 5000)) model_path ''a.wav''
      ''output.json'' ''output.txt'' Map.empty)) = [replicate 8000 0, replicate 2000 0, []] \<and>
   concat (reads_of (trace (transcribe_audio (demo_env (mono_wave 5000)) model_path ''a.wav''
      ''output.json'' ''output.txt'' Map.empty))) = replicate 10000 0"
proof -
  note c = demo_conditions[of "mono_wave 5000"]
  from reads_are_4000_frame_chunks[OF c(1,2,3,4) mono_wave_simps(1) c(5,6),
         of "''output.json''" "''output.txt''" Map.empty] c(1,2,3,4,5) mono_wave_simps(1)
  show ?thesis
    by (simp add: mono_wave_simps chunks_of_10000 chunk_size_def replicate_add[symmetric])
qed

subsection \<open>C4: exactly one final result\<close>

text \<open>
  Claim C4. On every run that enters the loop, when \<open>AcceptWaveform\<close> raises on none of the
  chunks of the stream, the record sequence is the intermediate results of the reference
  feeder over all the chunks, one per signalled boundary, followed by the final result of
  the recognizer as those chunks left it. The final result is requested exactly once, and
  before it the whole stream has been read (the reads concatenate to the stream and end
  with the empty read) and every intermediate result retrieved; after it nothing is read
  or retrieved. A stream of zero frames, without any assumption on the recognizer, gives
  the final result alone after a single empty read, and when the files can be written both
  are created, the JSON file holding that one record.
\<close>

theorem one_final_result_appended:
  assumes "path_exists env mp" and "load_model env mp = Inr m" and "path_exists env af"
    and "wave_open env af = Inr w" and "valid_format w"
    and "new_recognizer env m (framerate w) = Inr r"
  shows "(run_chunks env r (chunks_of (chunk_size * 2) (unread w)) = Inr (rs, r') \<longrightarrow>
            records (transcribe_audio env mp af oj ot fs0) = rs @ [fst (final_result env r')] \<and>
            count_list (trace (transcribe_audio env mp af oj ot fs0)) EvFinalResult = 1 \<and>
            count_list (trace (transcribe_audio env mp af oj ot fs0)) EvResult = length rs \<and>
            (\<exists>pre post.
               trace (transcribe_audio env mp af oj ot fs0) = pre @ EvFinalResult # post \<and>
               reads_of pre = chunks_of (chunk_size * 2) (unread w) @ [[]] \<and>
               concat (reads_of pre) = unread w \<and>
               count_list pre EvResult = length rs \<and>
               reads_of post = [] \<and> count_list post EvResult = 0)) \<and>
         (unread w = [] \<longrightarrow>
            records (transcribe_audio env mp af oj ot fs0) = [fst (final_result env r)] \<and>
            count_list (trace (transcribe_audio env mp af oj ot fs0)) EvFinalResult = 1 \<and>
            reads_of (trace (transcribe_audio env mp af oj ot fs0)) = [[]]) \<and>
         (unread w = [] \<and> open_error env oj = None \<and> write_error env oj = None \<and>
          open_error env ot = None \<and> oj \<noteq> ot \<longrightarrow>
            fsys (transcribe_audio env mp af oj ot fs0) oj
              = Some (JsonDoc [fst (final_result env r)]) \<and>
            (\<exists>c. fsys (transcribe_audio env mp af oj ot fs0) ot = Some (TextDoc c)))"
proof -
  let ?out = "transcribe_audio env mp af oj ot fs0"
  have k: "chunk_size * 2 = 8000" by (simp add: chunk_size_def)
  have gen: "records ?out = rs @ [fst (final_result env r')] \<and>
            count_list (trace ?out) EvFinalResult = 1 \<and>
            count_list (trace ?out) EvResult = length rs \<and>
            (\<exists>pre post. trace ?out = pre @ EvFinalResult # post \<and>
               reads_of pre = chunks_of (chunk_size * 2) (unread w) @ [[]] \<and>
               concat (reads_of pre) = unread w \<and>
               count_list pre EvResult = length rs \<and>
               reads_of post = [] \<and> count_list post EvResult = 0)"
    if rc: "run_chunks env r (chunks_of (chunk_size * 2) (unread w)) = Inr (rs, r')"
  proof -
    from rc have rc': "run_chunks env r (chunks_of 8000 (unread w)) = Inr (rs, r')"
      unfolding k .
    note f = transcribe_audio_run_chunks[OF assms rc', of oj ot fs0]
    from f(5) obtain pre post where
      p: "trace ?out = pre @ EvFinalResult # post"
         "reads_of pre = chunks_of 8000 (unread w) @ [[]]"
         "count_list pre EvResult = length rs" "reads_of post = []"
         "count_list post EvResult = 0"
      by blast
    have "concat (reads_of pre) = unread w"
      unfolding p(2) by (simp add: concat_chunks_of)
    with p have "\<exists>pre post. trace ?out = pre @ EvFinalResult # post \<and>
               reads_of pre = chunks_of (chunk_size * 2) (unread w) @ [[]] \<and>
               concat (reads_of pre) = unread w \<and>
               count_list pre EvResult = length rs \<and>
               reads_of post = [] \<and> count_list post EvResult = 0"
      unfolding k by blast
    with f(1,2,3) show ?thesis by simp
  qed
  have zero: "run_chunks env r (chunks_of 8000 (unread w)) = Inr ([], r)" if "unread w = []"
    using that by simp
  have z1: "records ?out = [fst (final_result env r)] \<and>
            count_list (trace ?out) EvFinalResult = 1 \<and> reads_of (trace ?out) = [[]]"
    if u: "unread w = []"
  proof -
    note f = transcribe_audio_run_chunks[OF assms zero[OF u], of oj ot fs0]
    from f(1,2,4) u show ?thesis by simp
  qed
  have z2: "fsys ?out oj = Some (JsonDoc [fst (final_result env r)]) \<and>
            (\<exists>c. fsys ?out ot = Some (TextDoc c))"
    if u: "unread w = []" and e: "open_error env oj = None" "write_error env oj = None"
       "open_error env ot = None" "oj \<noteq> ot"
  proof -
    note f = transcribe_audio_run_chunks[OF assms zero[OF u], of oj ot fs0]
    show ?thesis
      unfolding f(6) using e
      by (auto simp: save_results_def Let_def split: prod.splits option.splits)
  qed
  from gen z1 z2 show ?thesis by blast
qed

theorem one_final_result_appended_witness:
  "path_exists first_boundary_env model_path \<and>
   load_model first_boundary_env model_path = Inr () \<and>
   path_exists first_boundary_env ''a.wav'' \<and>
   wave_open first_boundary_env ''a.wav'' = Inr (mono_wave 5000) \<and>
   valid_format (mono_wave 5000) \<and>
   new_recognizer first_boundary_env () (framerate (mono_wave 5000)) = Inr 0 \<and>
   run_chunks first_boundary_env 0 (chunks_of (chunk_size * 2) (unread (mono_wave 5000)))
     = Inr ([[(''text'', JStr ''salam'')]], 2) \<and>
   records (transcribe_audio first_boundary_env model_path ''a.wav'' ''output.json''
      ''output.txt'' Map.empty) = [[(''text'', JStr ''salam'')], [(''text'', JStr [])]] \<and>
   count_list (trace (transcribe_audio first_boundary_env model_path ''a.wav''
      ''output.json'' ''output.txt'' Map.empty)) EvFinalResult = 1 \<and>
   count_list (trace (transcribe_audio first_boundary_env model_path ''a.wav''
      ''output.json'' ''output.txt'' Map.empty)) EvResult = 1 \<and>
   wave_open (demo_env (mono_wave 0)) ''a.wav'' = Inr (mono_wave 0) \<and>
   unread (mono_wave 0) = [] \<and>
   records (transcribe_audio (demo_env (mono_wave 0)) model_path ''a.wav''
      ''output.json'' ''output.txt'' Map.empty) = [[(''text'', JStr [])]] \<and>
   fsys (transcribe_audio (demo_env (mono_wave 0)) model_path ''a.wav''
      ''output.json'' ''output.txt'' Map.empty) ''output.json''
      = Some (JsonDoc [[(''text'', JStr [])]])"
proof -
  note b = first_boundary_conditions
  note c = demo_conditions[of "mono_wave 0"]
  have u: "unread (mono_wave 0) = []" by (simp add: mono_wave_simps)
  have e: "open_error (demo_env (mono_wave 0)) ''output.json'' = None"
    "write_error (demo_env (mono_wave 0)) ''output.json'' = None"
    "open_error (demo_env (mono_wave 0)) ''output.txt'' = None"
    "fst (final_result (demo_env (mono_wave 0)) 0) = [(''text'', JStr [])]"
    by (simp_all add: demo_env_def)
  from one_final_result_appended[OF b(1,2,3,4) mono_wave_simps(1) b(5),
         where rs = "[[(''text'', JStr ''salam'')]]" and r' = 2 and oj = "''output.json''"
           and ot = "''output.txt''" and ?fs0.0 = Map.empty]
       one_final_result_appended[OF c(1,2,3,4) mono_wave_simps(1) c(5),
         where rs = "[]" and r' = 0 and oj = "''output.json''"
           and ot = "''output.txt''" and ?fs0.0 = Map.empty]
       b(1,2,3,4,5,6) c(4) mono_wave_simps(1) first_boundary_chunks u e
  show ?thesis by simp
qed

subsection \<open>C5: rejection of a wrong format\<close>

text \<open>
  Claim C5. An input whose channel count is not 1, or whose sample width is not 2, or whose
  rate is neither 8000 nor 16000 ends the process with status 1 without any \<open>readframes\<close>
  call and without opening or changing any output file; when the model loads and the audio
  path exists the exit is the \<open>exit(1)\<close> after the format diagnostic.
\<close>

theorem invalid_format_rejected:
  assumes "wave_open env audio_file = Inr w"
    and "nchannels w \<noteq> 1 \<or> sampwidth w \<noteq> 2 \<or> framerate w \<notin> {8000, 16000}"
  shows "exit_code (status (transcribe_audio env mp audio_file oj ot fs0)) = 1 \<and>
         reads_of (trace (transcribe_audio env mp audio_file oj ot fs0)) = [] \<and>
         opened_for_write (trace (transcribe_audio env mp audio_file oj ot fs0)) = [] \<and>
         fsys (transcribe_audio env mp audio_file oj ot fs0) = fs0 \<and>
         (path_exists env mp \<and> load_model env mp = Inr m \<and> path_exists env audio_file \<longrightarrow>
            status (transcribe_audio env mp audio_file oj ot fs0) = Exited 1 \<and>
            Step BadAudioSpecs \<in> set (trace (transcribe_audio env mp audio_file oj ot fs0)))"
proof -
  from assms(2) have nv: "\<not> valid_format w" by (auto simp: valid_format_def)
  from transcribe_audio_reject[OF assms(1) nv, of mp oj ot fs0]
  have q: "exit_code (status (transcribe_audio env mp audio_file oj ot fs0)) = 1 \<and>
         reads_of (trace (transcribe_audio env mp audio_file oj ot fs0)) = [] \<and>
         opened_for_write (trace (transcribe_audio env mp audio_file oj ot fs0)) = [] \<and>
         fsys (transcribe_audio env mp audio_file oj ot fs0) = fs0"
    by (simp add: quiet_def)
  have "path_exists env mp \<and> load_model env mp = Inr m \<and> path_exists env audio_file \<longrightarrow>
            status (transcribe_audio env mp audio_file oj ot fs0) = Exited 1 \<and>
            Step BadAudioSpecs \<in> set (trace (transcribe_audio env mp audio_file oj ot fs0))"
    using assms by (auto simp: transcribe_audio_def Let_def)
  with q show ?thesis by blast
qed

theorem invalid_format_rejected_witness:
  "wave_open (demo_env stereo_wave) ''a.wav'' = Inr stereo_wave \<and>
   nchannels stereo_wave = 2 \<and> framerate stereo_wave = 44100 \<and>
   path_exists (demo_env stereo_wave) model_path \<and>
   load_model (demo_env stereo_wave) model_path = Inr () \<and>
   path_exists (demo_env stereo_wave) ''a.wav'' \<and>
   status (transcribe_audio (demo_env stereo_wave) model_path ''a.wav'' ''output.json''
             ''output.txt'' Map.empty) = Exited 1 \<and>
   reads_of (trace (transcribe_audio (demo_env stereo_wave) model_path ''a.wav''
                      ''output.json'' ''output.txt'' Map.empty)) = [] \<and>
   fsys (transcribe_audio (demo_env stereo_wave) model_path ''a.wav'' ''output.json''
           ''output.txt'' Map.empty) = Map.empty"
proof -
  have w: "wave_open (demo_env stereo_wave) ''a.wav'' = Inr stereo_wave"
    by (simp add: demo_env_def)
  have b: "nchannels stereo_wave \<noteq> 1 \<or> sampwidth stereo_wave \<noteq> 2
      \<or> framerate stereo_wave \<notin> {8000, 16000}"
    by (simp add: stereo_wave_def)
  have p: "path_exists (demo_env stereo_wave) model_path \<and>
    load_model (demo_env stereo_wave) model_path = Inr () \<and>
    path_exists (demo_env stereo_wave) ''a.wav''"
    by (simp add: demo_env_def model_path_def)
  have h: "nchannels stereo_wave = 2 \<and> framerate stereo_wave = 44100"
    by (simp add: stereo_wave_def)
  from invalid_format_rejected[OF w b, of model_path "''output.json''" "''output.txt''"
          Map.empty "()"] w h p
  show ?thesis by simp
qed

subsection \<open>C6: the lines of the text file\<close>

text \<open>
  Claim C6. When both files can be opened and written, the plain-text file holds one line
  per record that has a \<open>text\<close> field, in the order of the sequence, the line being the
  field's value; the empty text gives an empty line and a record without the field gives
  nothing. The \<open>text\<close> values are strings, as the engine supplies them.
\<close>

theorem text_file_lines:
  assumes "open_error env output_json = None" and "write_error env output_json = None"
    and "open_error env output_txt = None" and "write_error env output_txt = None"
    and "\<forall>r\<in>set rs. text_is_str r"
  shows "snd (save_results env rs output_json output_txt fs0) output_txt
           = Some (TextDoc (text_lines (texts rs)))"
  using assms write_lines_ok[of rs "[]"]
  by (simp add: save_results_def Let_def)

theorem text_file_lines_witness:
  "open_error (demo_env (mono_wave 0)) ''output.json'' = None \<and>
   write_error (demo_env (mono_wave 0)) ''output.json'' = None \<and>
   open_error (demo_env (mono_wave 0)) ''output.txt'' = None \<and>
   write_error (demo_env (mono_wave 0)) ''output.txt'' = None \<and>
   list_all text_is_str demo_records \<and>
   snd (save_results (demo_env (mono_wave 0)) demo_records ''output.json'' ''output.txt''
          Map.empty) ''output.txt''
     = Some (TextDoc (''salam'' @ newline @ newline))"
  using text_file_lines[of "demo_env (mono_wave 0)" "''output.json''" "''output.txt''"
          demo_records Map.empty]
  by (simp add: demo_env_def demo_records_def text_is_str_def list_all_iff)

subsection \<open>C7: the text file against the JSON file\<close>

text \<open>
  Claim C7. Whenever the run writes the text file (to a path other than the JSON path), the
  JSON file holds the whole record array, and the text written is made of the \<open>text\<close>
  values of the records of that array that have the field, in the array's order: all of
  them when no write failure is reported, a prefix of them otherwise.
\<close>

theorem text_lines_from_json_records:
  assumes "output_json \<noteq> output_txt"
    and "EvWrite output_txt c \<in> set (fst (save_results env rs output_json output_txt fs0))"
  shows "snd (save_results env rs output_json output_txt fs0) output_json = Some (JsonDoc rs) \<and>
         snd (save_results env rs output_json output_txt fs0) output_txt = Some (TextDoc c) \<and>
         (\<exists>m. c = text_lines (take m (texts rs)) \<and>
              (save_errors (fst (save_results env rs output_json output_txt fs0)) = []
                 \<longrightarrow> m = length (texts rs)))"
proof -
  obtain x c' where wl: "write_lines (write_error env output_txt) rs [] = (x, c')"
    by (cases "write_lines (write_error env output_txt) rs []")
  from write_lines_prefix[OF wl] obtain m where
    m: "c' = text_lines (take m (texts rs))" "x = None \<longrightarrow> m = length (texts rs)"
    by auto
  have c: "c = c'"
    using assms wl
    by (auto simp: save_results_def Let_def split: option.splits prod.splits)
  have j: "snd (save_results env rs output_json output_txt fs0) output_json = Some (JsonDoc rs)"
    using assms wl
    by (auto simp: save_results_def Let_def split: option.splits prod.splits)
  have t: "snd (save_results env rs output_json output_txt fs0) output_txt = Some (TextDoc c)"
    using assms wl
    by (auto simp: save_results_def Let_def split: option.splits prod.splits)
  have e: "save_errors (fst (save_results env rs output_json output_txt fs0)) = []
                \<longrightarrow> m = length (texts rs)"
    using assms wl m(2)
    by (auto simp: save_results_def Let_def split: option.splits prod.splits)
  from m(1) c e have "\<exists>m. c = text_lines (take m (texts rs)) \<and>
              (save_errors (fst (save_results env rs output_json output_txt fs0)) = []
                 \<longrightarrow> m = length (texts rs))"
    by blast
  with j t show ?thesis by simp
qed

theorem text_lines_from_json_records_witness:
  "''output.json'' \<noteq> ''output.txt'' \<and>
   EvWrite ''output.txt'' (''salam'' @ newline @ newline)
     \<in> set (fst (save_results (demo_env (mono_wave 0)) demo_records ''output.json''
                   ''output.txt'' Map.empty)) \<and>
   snd (save_results (demo_env (mono_wave 0)) demo_records ''output.json'' ''output.txt''
          Map.empty) ''output.json'' = Some (JsonDoc demo_records) \<and>
   snd (save_results (demo_env (mono_wave 0)) demo_records ''output.json'' ''output.txt''
          Map.empty) ''output.txt'' = Some (TextDoc (''salam'' @ newline @ newline))"
proof -
  have w: "EvWrite ''output.txt'' (''salam'' @ newline @ newline)
     \<in> set (fst (save_results (demo_env (mono_wave 0)) demo_records ''output.json''
                   ''output.txt'' Map.empty))"
    by (simp add: save_results_def demo_env_def demo_records_def)
  have d: "''output.json'' \<noteq> ''output.txt''" by simp
  from text_lines_from_json_records[OF d w] w d show ?thesis by simp
qed

subsection \<open>C8: progress values default to zero\<close>

text \<open>
  Claim C8. In every row assigned to the progress table the speed and the remaining time
  are the task's values with \<open>or 0\<close> applied: where the task reports \<open>None\<close> (as in the
  first iteration, before a rate can be measured) the row holds zero, and computing the row
  cannot fail.
\<close>

theorem progress_defaults_to_zero:
  assumes "j < length (live_rows (trace (transcribe_audio env mp af oj ot fs0)))"
    and "live_rows (trace (transcribe_audio env mp af oj ot fs0)) ! j = (a, b, c, d)"
  shows "c = or_zero (task_speed env j) \<and> d = or_zero (task_time_remaining env j) \<and>
         (task_speed env j = None \<longrightarrow> c = 0) \<and>
         (task_time_remaining env j = None \<longrightarrow> d = 0)"
proof -
  from transcribe_rows_ok[of env mp af oj ot fs0] obtain tot where
    "rows_ok env tot 0 (live_rows (trace (transcribe_audio env mp af oj ot fs0)))" by blast
  from rows_ok_nth[OF this assms(1)] assms(2)
  have "c = or_zero (task_speed env j)" "d = or_zero (task_time_remaining env j)"
    by simp_all
  then show ?thesis by (simp add: or_zero_None)
qed

theorem progress_defaults_to_zero_witness:
  "live_rows (trace (transcribe_audio (demo_env (mono_wave 5000)) model_path ''a.wav''
      ''output.json'' ''output.txt'' Map.empty)) ! 0 = (8000, 5000, 0, 0) \<and>
   task_speed (demo_env (mono_wave 5000)) 0 = None \<and>
   task_time_remaining (demo_env (mono_wave 5000)) 0 = None \<and>
   or_zero (task_speed (demo_env (mono_wave 5000)) 0) = 0 \<and>
   or_zero (task_time_remaining (demo_env (mono_wave 5000)) 0) = 0"
proof -
  have l: "0 < length (live_rows (trace (transcribe_audio (demo_env (mono_wave 5000))
      model_path ''a.wav'' ''output.json'' ''output.txt'' Map.empty)))"
    by (simp add: demo_rows_5000)
  have r: "live_rows (trace (transcribe_audio (demo_env (mono_wave 5000)) model_path ''a.wav''
      ''output.json'' ''output.txt'' Map.empty)) ! 0 = (8000, 5000, 0, 0)"
    by (simp add: demo_rows_5000)
  have n: "task_speed (demo_env (mono_wave 5000)) 0 = None"
    "task_time_remaining (demo_env (mono_wave 5000)) 0 = None"
    by (simp_all add: demo_env_def)
  from progress_defaults_to_zero[OF l r] r n show ?thesis by simp
qed

subsection \<open>C9: the frame counter counts bytes\<close>

text \<open>
  Claim C9, as stated, fails: the final value of the counter is the number of bytes read,
  and a file cut short is accepted by the validation. With a header of 5000 frames and a
  data chunk of 6000 bytes the counter ends at 6000, not at twice 5000.
\<close>

theorem truncated_stream_counter:
  "valid_format truncated_wave \<and> nframes truncated_wave = 5000 \<and>
   fst (feed_loop (demo_env truncated_wave) (start_state truncated_wave 0 [])) = None \<and>
   frames_processed (snd (feed_loop (demo_env truncated_wave)
      (start_state truncated_wave 0 []))) = 6000 \<and>
   total_frames (snd (feed_loop (demo_env truncated_wave)
      (start_state truncated_wave 0 []))) = 5000"
proof -
  let ?s0 = "start_state truncated_wave (0::nat) []"
  have n: "fst (feed_loop (demo_env truncated_wave) ?s0) = None"
    using demo_conditions(6)[of truncated_wave] by (rule feed_loop_no_raise)
  then obtain s' where fl: "feed_loop (demo_env truncated_wave) ?s0 = (None, s')"
    by (cases "feed_loop (demo_env truncated_wave) ?s0") auto
  have cb: "chunk_bytes ?s0 = 8000"
    using truncated_wave_simps(1) by (rule chunk_bytes_valid)
  then have pos: "0 < chunk_bytes ?s0" by simp
  from feed_loop_None[OF pos fl] fl
  have "frames_processed (snd (feed_loop (demo_env truncated_wave) ?s0)) = 6000"
    "total_frames (snd (feed_loop (demo_env truncated_wave) ?s0)) = 5000"
    by (simp_all add: truncated_wave_simps)
  with n truncated_wave_simps(1,2) show ?thesis by simp
qed

text \<open>
  Claim C9, amended. The counter \<open>frames_processed\<close> and the progress task are advanced by
  the byte length of each chunk: the counter in the successive rows is the running sum of
  the chunk lengths in bytes, and for every valid mono 16-bit stream the final counter and
  the task's completed amount are the number of bytes of the stream, against a task total
  of \<open>nframes\<close>. They are twice the total number of frames when the data chunk holds
  exactly the frames the header announces.
\<close>

theorem frames_processed_counts_bytes:
  assumes "valid_format w"
    and "fst (feed_loop env (start_state w r ev)) = None"
  shows "frames_processed (snd (feed_loop env (start_state w r ev))) = length (unread w) \<and>
         task_completed (snd (feed_loop env (start_state w r ev))) = length (unread w) \<and>
         total_frames (snd (feed_loop env (start_state w r ev))) = nframes w \<and>
         reads_of (events (snd (feed_loop env (start_state w r ev)))) =
           reads_of ev @ chunks_of 8000 (unread w) @ [[]] \<and>
         advances (events (snd (feed_loop env (start_state w r ev)))) =
           advances ev @ map length (chunks_of 8000 (unread w)) \<and>
         map fst (live_rows (events (snd (feed_loop env (start_state w r ev))))) =
           map fst (live_rows ev) @ running_sums 0 (map length (chunks_of 8000 (unread w))) \<and>
         (length (unread w) = nframes w * framesize w \<longrightarrow>
            frames_processed (snd (feed_loop env (start_state w r ev))) = 2 * nframes w \<and>
            task_completed (snd (feed_loop env (start_state w r ev))) =
              2 * total_frames (snd (feed_loop env (start_state w r ev))))"
proof -
  obtain s' where fl: "feed_loop env (start_state w r ev) = (None, s')"
    using assms(2) by (cases "feed_loop env (start_state w r ev)") auto
  have cb: "chunk_bytes (start_state w r ev) = 8000"
    using assms(1) by (rule chunk_bytes_valid)
  then have pos: "0 < chunk_bytes (start_state w r ev)" by simp
  have fs: "framesize w = 2"
    using assms(1) by (simp add: valid_format_def framesize_def)
  from feed_loop_None[OF pos fl] cb fs fl
  show ?thesis by simp
qed

theorem frames_processed_counts_bytes_witness:
  "valid_format (mono_wave 5000) \<and>
   length (unread (mono_wave 5000)) = nframes (mono_wave 5000) * framesize (mono_wave 5000) \<and>
   fst (feed_loop (demo_env (mono_wave 5000)) (start_state (mono_wave 5000) 0 [])) = None \<and>
   frames_processed (snd (feed_loop (demo_env (mono_wave 5000))
      (start_state (mono_wave 5000) 0 []))) = 10000 \<and>
   total_frames (snd (feed_loop (demo_env (mono_wave 5000))
      (start_state (mono_wave 5000) 0 []))) = 5000 \<and>
   task_completed (snd (feed_loop (demo_env (mono_wave 5000))
      (start_state (mono_wave 5000) 0 []))) = 10000 \<and>
   advances (events (snd (feed_loop (demo_env (mono_wave 5000))
      (start_state (mono_wave 5000) 0 [])))) = [8000, 2000] \<and>
   map fst (live_rows (events (snd (feed_loop (demo_env (mono_wave 5000))
      (start_state (mono_wave 5000) 0 []))))) = [8000, 10000]"
proof -
  have a: "valid_format (mono_wave 5000)" by (rule mono_wave_simps(1))
  have b: "length (unread (mono_wave 5000))
             = nframes (mono_wave 5000) * framesize (mono_wave 5000)"
    by (simp add: mono_wave_simps)
  have c: "fst (feed_loop (demo_env (mono_wave 5000)) (start_state (mono_wave 5000) 0 []))
             = None"
    using demo_conditions(6)[of "mono_wave 5000"] by (rule feed_loop_no_raise)
  from frames_processed_counts_bytes[OF a c] a b c
  show ?thesis by (simp add: mono_wave_simps chunks_of_10000)
qed

subsection \<open>C10: the prompt loop and a path that is not a valid waveform file\<close>

text \<open>
  Claim C10. The prompt loop re-prompts exactly for the entries whose stripped path does
  not exist and accepts the first one that exists, whatever it is. When that path cannot be
  opened as a waveform file, or fails the format validation, the process ends with exit
  status 1: no further line of input is consumed and no further prompt is made.
\<close>

theorem existing_path_accepted_then_exit:
  assumes "\<forall>x\<in>set skipped. \<not> path_exists env (strip x)"
    and "path_exists env (strip l)"
    and "(\<exists>e. wave_open env (strip l) = Inl e) \<or>
         (\<exists>w. wave_open env (strip l) = Inr w \<and> \<not> valid_format w)"
  shows "prompt_loop env (skipped @ l # rest) [] =
           (Some (strip l), rest,
            concat (map (\<lambda>x. [EvInput AskAudioPath, EvNotFoundMsg]) skipped)
              @ [EvInput AskAudioPath]) \<and>
         exit_code (run_status (main env (skipped @ l # rest) fs0)) = 1 \<and>
         stdin_left (main env (skipped @ l # rest) fs0) = rest \<and>
         count_list (run_trace (main env (skipped @ l # rest) fs0)) (EvInput AskAudioPath)
           = Suc (length skipped) \<and>
         count_list (run_trace (main env (skipped @ l # rest) fs0)) EvNotFoundMsg
           = length skipped \<and>
         count_list (run_trace (main env (skipped @ l # rest) fs0)) (EvInput PressEnter) = 0 \<and>
         run_fsys (main env (skipped @ l # rest) fs0) = fs0"
proof -
  let ?out = "transcribe_audio env model_path (strip l) ''output.json'' ''output.txt'' fs0"
  let ?ev = "concat (map (\<lambda>x. [EvInput AskAudioPath, EvNotFoundMsg]) skipped)
              @ [EvInput AskAudioPath]"
  have pl: "prompt_loop env (skipped @ l # rest) [] = (Some (strip l), rest, ?ev)"
    using prompt_loop_skip[OF assms(1,2), of rest "[]"] by simp
  from transcribe_audio_cases[of env model_path "strip l" "''output.json''" "''output.txt''" fs0]
    assms(3)
  have early: "quiet (trace ?out)" "fsys ?out = fs0" "exit_code (status ?out) = 1"
    by auto
  from early(3) have nf: "status ?out \<noteq> Finished" by auto
  have m: "main env (skipped @ l # rest) fs0 =
     \<lparr>run_status = status ?out, run_trace = ?ev @ trace ?out, run_fsys = fsys ?out,
      stdin_left = rest\<rparr>"
    using nf by (simp add: main_def pl Let_def split: status.splits)
  from early(1) have q: "count_list (trace ?out) (EvInput AskAudioPath) = 0"
    "count_list (trace ?out) EvNotFoundMsg = 0" "count_list (trace ?out) (EvInput PressEnter) = 0"
    by (simp_all add: quiet_def)
  show ?thesis
    unfolding m using pl early(2,3) q
    by (simp add: count_list_append count_reprompts)
qed

theorem existing_path_accepted_then_exit_witness:
  "\<not> path_exists (demo_env stereo_wave) (strip ''missing.wav'') \<and>
   path_exists (demo_env stereo_wave) (strip '' notes.txt '') \<and>
   wave_open (demo_env stereo_wave) (strip '' notes.txt '')
     = Inl (Error ''file does not start with RIFF id'') \<and>
   exit_code (run_status (main (demo_env stereo_wave)
      [''missing.wav'', '' notes.txt '', ''a.wav''] Map.empty)) = 1 \<and>
   stdin_left (main (demo_env stereo_wave)
      [''missing.wav'', '' notes.txt '', ''a.wav''] Map.empty) = [''a.wav''] \<and>
   count_list (run_trace (main (demo_env stereo_wave)
      [''missing.wav'', '' notes.txt '', ''a.wav''] Map.empty)) (EvInput AskAudioPath) = 2 \<and>
   path_exists (demo_env stereo_wave) (strip ''a.wav'') \<and>
   wave_open (demo_env stereo_wave) (strip ''a.wav'') = Inr stereo_wave \<and>
   nchannels stereo_wave = 2 \<and>
   exit_code (run_status (main (demo_env stereo_wave) [''a.wav'', ''b.wav''] Map.empty)) = 1 \<and>
   stdin_left (main (demo_env stereo_wave) [''a.wav'', ''b.wav''] Map.empty) = [''b.wav'']"
proof -
  have a: "\<forall>x\<in>set [''missing.wav'']. \<not> path_exists (demo_env stereo_wave) (strip x)"
    by (simp add: strip_example demo_env_def)
  have b: "path_exists (demo_env stereo_wave) (strip '' notes.txt '')"
    by (simp add: strip_example demo_env_def)
  have c: "wave_open (demo_env stereo_wave) (strip '' notes.txt '')
     = Inl (Error ''file does not start with RIFF id'')"
    by (simp add: strip_example demo_env_def)
  then have c': "(\<exists>e. wave_open (demo_env stereo_wave) (strip '' notes.txt '') = Inl e) \<or>
         (\<exists>w. wave_open (demo_env stereo_wave) (strip '' notes.txt '') = Inr w
               \<and> \<not> valid_format w)"
    by blast
  have a2: "\<forall>x\<in>set []. \<not> path_exists (demo_env stereo_wave) (strip x)" by simp
  have b2: "path_exists (demo_env stereo_wave) (strip ''a.wav'')"
    by (simp add: strip_example demo_env_def)
  have c2: "wave_open (demo_env stereo_wave) (strip ''a.wav'') = Inr stereo_wave"
    by (simp add: strip_example demo_env_def)
  have n: "nchannels stereo_wave = 2" by (simp add: stereo_wave_def)
  then have "\<not> valid_format stereo_wave" by (simp add: valid_format_def)
  with c2 have c2': "(\<exists>e. wave_open (demo_env stereo_wave) (strip ''a.wav'') = Inl e) \<or>
         (\<exists>w. wave_open (demo_env stereo_wave) (strip ''a.wav'') = Inr w
               \<and> \<not> valid_format w)"
    by blast
  from a have a0: "\<not> path_exists (demo_env stereo_wave) (strip ''missing.wav'')" by simp
  from existing_path_accepted_then_exit[OF a b c', of "[''a.wav'']" Map.empty]
       existing_path_accepted_then_exit[OF a2 b2 c2', of "[''b.wav'']" Map.empty]
       a0 b c b2 c2 n
  show ?thesis by simp
qed

end
